theory Spec2Isabelle
  imports Main "HOL-Library.AList" "HOL-Library.Multiset"
begin

section \<open>Python values, errors and strings\<close>

text \<open>
  The embedding follows \<^verbatim>\<open>src/maracas/dataset.py\<close> under Python 3 on POSIX. Every
  \<^verbatim>\<open>raise\<close> of the module and every failure of a library call it makes is a value of
  \<open>error\<close>; the constructor is the Python exception class and the argument its message
  (for \<open>KeyError\<close> the missing key, for the I/O errors the path). A function of the module
  that touches the file system takes the world and returns its result with the world it
  leaves, also when it fails. The progress bar (\<^verbatim>\<open>tqdm\<close>) is left out.
\<close>

datatype error =
    ValueError string
  | KeyError string
  | TypeError string
  | OSError string
  | IOError string

text \<open>
  The values an SNR argument can take in the embedding: an integer, a tuple or a list.
  (Floating-point SNRs are left out: their textual form is not modelled.)
\<close>

datatype pyval = PInt int | PTuple "pyval list" | PList "pyval list"

text \<open>The types \<^verbatim>\<open>type(name)\<close> is compared with in \<^verbatim>\<open>_add_distortion_files\<close>.\<close>

datatype pytype = T_str | T_list | T_tuple

text \<open>
  The \<^verbatim>\<open>name\<close> argument of the registration operations, when it is not \<^verbatim>\<open>None\<close>: a string
  or a list of strings. Registry keys are strings throughout the embedding, so a tuple of
  names is not a value of this type; \<open>T_tuple\<close> is the type no value of it has.
\<close>

datatype name_arg = NameStr string | NameList "string list"

fun type_of_name :: "name_arg \<Rightarrow> pytype" where
  "type_of_name (NameStr s) = T_str"
| "type_of_name (NameList ns) = T_list"

text \<open>\<^verbatim>\<open>len(name)\<close> and iteration over \<^verbatim>\<open>name\<close> (a string iterates over its characters).\<close>

fun len_name :: "name_arg \<Rightarrow> nat" where
  "len_name (NameStr s) = length s"
| "len_name (NameList ns) = length ns"

fun iter_name :: "name_arg \<Rightarrow> string list" where
  "iter_name (NameStr s) = map (\<lambda>c. [c]) s"
| "iter_name (NameList ns) = ns"

subsection \<open>\<^verbatim>\<open>str\<close> of an SNR value, as \<^verbatim>\<open>'{}'.format\<close> prints it\<close>

fun digit_char :: "nat \<Rightarrow> char" where
  "digit_char n = ''0123456789'' ! n"

fun str_nat :: "nat \<Rightarrow> string" where
  "str_nat n = (if n < 10 then [digit_char n] else str_nat (n div 10) @ [digit_char (n mod 10)])"

declare str_nat.simps [simp del]

definition str_int :: "int \<Rightarrow> string" where
  "str_int i = (if i < 0 then ''-'' @ str_nat (nat (- i)) else str_nat (nat i))"

fun join_str :: "string \<Rightarrow> string list \<Rightarrow> string" where
  "join_str sep [] = []"
| "join_str sep [x] = x"
| "join_str sep (x # y # ys) = x @ sep @ join_str sep (y # ys)"

fun py_str :: "pyval \<Rightarrow> string" where
  "py_str (PInt i) = str_int i"
| "py_str (PTuple xs) =
     (if length xs = 1 then ''('' @ join_str '', '' (map py_str xs) @ '',)''
      else ''('' @ join_str '', '' (map py_str xs) @ '')'')"
| "py_str (PList xs) = ''['' @ join_str '', '' (map py_str xs) @ '']''"

section \<open>\<^verbatim>\<open>os.path\<close> (posixpath), \<^verbatim>\<open>fnmatch\<close>\<close>

definition join2 :: "string \<Rightarrow> string \<Rightarrow> string" where
  "join2 path b =
     (if b \<noteq> [] \<and> hd b = CHR ''/'' then b
      else if path = [] \<or> last path = CHR ''/'' then path @ b
      else path @ ''/'' @ b)"

definition os_path_join :: "string \<Rightarrow> string list \<Rightarrow> string" where
  "os_path_join a p = foldl join2 a p"

definition os_path_basename :: "string \<Rightarrow> string" where
  "os_path_basename p = rev (takeWhile (\<lambda>c. c \<noteq> CHR ''/'') (rev p))"

definition rstrip_sep :: "string \<Rightarrow> string" where
  "rstrip_sep h = rev (dropWhile (\<lambda>c. c = CHR ''/'') (rev h))"

definition os_path_split :: "string \<Rightarrow> string \<times> string" where
  "os_path_split p =
     (let tail = os_path_basename p;
          head = take (length p - length tail) p
      in (if head \<noteq> [] \<and> head \<noteq> replicate (length head) CHR ''/'' then rstrip_sep head
          else head, tail))"

definition os_path_dirname :: "string \<Rightarrow> string" where
  "os_path_dirname p = fst (os_path_split p)"

definition rfind :: "string \<Rightarrow> char \<Rightarrow> int" where
  "rfind p c =
     (if c \<in> set p then int (length p) - 1 - int (length (takeWhile (\<lambda>x. x \<noteq> c) (rev p)))
      else - 1)"

definition os_path_splitext :: "string \<Rightarrow> string \<times> string" where
  "os_path_splitext p =
     (let sepIndex = rfind p CHR ''/'';
          dotIndex = rfind p CHR ''.''
      in if dotIndex > sepIndex \<and>
            list_ex (\<lambda>c. c \<noteq> CHR ''.'')
              (take (nat (dotIndex - (sepIndex + 1))) (drop (nat (sepIndex + 1)) p))
         then (take (nat dotIndex) p, drop (nat dotIndex) p)
         else (p, []))"

text \<open>
  \<^verbatim>\<open>fnmatch(name, pat)\<close> for patterns of literal characters, \<^verbatim>\<open>*\<close> and \<^verbatim>\<open>?\<close> (the module
  only uses \<^verbatim>\<open>*.wav\<close> and \<^verbatim>\<open>*.WAV\<close>); matching is case-sensitive, as on POSIX.
\<close>

fun fnmatch :: "string \<Rightarrow> string \<Rightarrow> bool" where
  "fnmatch [] [] = True"
| "fnmatch (c # cs) [] = False"
| "fnmatch [] (p # ps) = (p = CHR ''*'' \<and> fnmatch [] ps)"
| "fnmatch (c # cs) (p # ps) =
     (if p = CHR ''*'' then fnmatch (c # cs) ps \<or> fnmatch cs (p # ps)
      else (p = CHR ''?'' \<or> c = p) \<and> fnmatch cs ps)"

section \<open>The world: file system, random generator, trace of I/O calls\<close>

datatype event = WavRead string | WavWrite string nat | MkDir string | Print string

text \<open>
  \<open>wavs\<close> maps the path of each regular file to the audio it holds (samples and sample
  rate); \<open>dirs\<close> is the set of existing directories, each under its name without trailing
  separators; \<open>listdir\<close> and \<open>walk\<close> are \<^verbatim>\<open>os.listdir\<close> and \<^verbatim>\<open>os.walk\<close> (consulted only by the
  registration operations, which change nothing on disk); \<open>glob_magic\<close> is what
  \<^verbatim>\<open>glob.glob\<close> returns for a pathname whose directory part itself holds a pattern
  character, which the embedding does not compute; \<open>perms\<close> is the sequence of
  permutations the random generator will draw and \<open>draws\<close> how many it has drawn;
  \<open>trace\<close> records every call that reads audio, writes audio, makes a directory or prints.
\<close>

record 's world =
  wavs :: "string \<rightharpoonup> ('s \<times> nat)"
  dirs :: "string set"
  listdir :: "string \<Rightarrow> string list"
  walk :: "string \<Rightarrow> (string \<times> string list \<times> string list) list"
  glob_magic :: "string \<Rightarrow> string list"
  perms :: "nat \<Rightarrow> nat list"
  draws :: nat
  trace :: "event list"

definition then_do ::
  "(error + 'a) \<times> 'w \<Rightarrow> ('a \<Rightarrow> 'w \<Rightarrow> (error + 'b) \<times> 'w) \<Rightarrow> (error + 'b) \<times> 'w" where
  "then_do m f = (case m of (Inl e, w) \<Rightarrow> (Inl e, w) | (Inr a, w) \<Rightarrow> f a w)"

definition log_event :: "event \<Rightarrow> 's world \<Rightarrow> 's world" where
  "log_event ev w = w\<lparr>trace := trace w @ [ev]\<rparr>"

definition fs_key :: "string \<Rightarrow> string" where
  "fs_key p = (if p \<noteq> [] \<and> p = replicate (length p) CHR ''/'' then ''/'' else rstrip_sep p)"

definition os_path_isfile :: "'s world \<Rightarrow> string \<Rightarrow> bool" where
  "os_path_isfile w p = (p \<in> dom (wavs w))"

definition os_path_isdir :: "'s world \<Rightarrow> string \<Rightarrow> bool" where
  "os_path_isdir w p = (fs_key p \<in> dirs w)"

definition parent_exists :: "'s world \<Rightarrow> string \<Rightarrow> bool" where
  "parent_exists w p =
     (let d = os_path_dirname (fs_key p) in d = [] \<or> d = ''/'' \<or> d \<in> dirs w)"

definition os_mkdir :: "string \<Rightarrow> 's world \<Rightarrow> (error + unit) \<times> 's world" where
  "os_mkdir p w =
     (let w' = log_event (MkDir p) w in
      if fs_key p \<in> dirs w \<or> p \<in> dom (wavs w) then (Inl (OSError ''File exists''), w')
      else if p = [] \<or> \<not> parent_exists w p then (Inl (OSError ''No such file or directory''), w')
      else (Inr (), w'\<lparr>dirs := insert (fs_key p) (dirs w)\<rparr>))"

definition py_print :: "string \<Rightarrow> 's world \<Rightarrow> 's world" where
  "py_print s w = log_event (Print s) w"

definition glob_ishidden :: "string \<Rightarrow> bool" where
  "glob_ishidden name = (name \<noteq> [] \<and> hd name = CHR ''.'')"

text \<open>\<^verbatim>\<open>glob.has_magic\<close>: the pattern characters are \<^verbatim>\<open>*\<close>, \<^verbatim>\<open>?\<close> and \<^verbatim>\<open>[\<close>.\<close>

definition has_magic :: "string \<Rightarrow> bool" where
  "has_magic s = list_ex (\<lambda>c. c = CHR ''*'' \<or> c = CHR ''?'' \<or> c = CHR ''['') s"

text \<open>
  \<^verbatim>\<open>glob.glob(pathname)\<close> for a pathname whose last component is a pattern. When the
  directory part holds a pattern character too, \<^verbatim>\<open>glob\<close> expands it first: the result is
  the world's \<open>glob_magic\<close>. Otherwise the result is the entries of that directory that
  match the last component, hidden names skipped unless the pattern itself is hidden,
  each joined to the directory part. An entry is listed whether it is a file or a
  directory.
\<close>

definition glob :: "'s world \<Rightarrow> string \<Rightarrow> string list" where
  "glob w pathname =
     (let (dirname, basename) = os_path_split pathname in
      if dirname \<noteq> pathname \<and> has_magic dirname then glob_magic w pathname
      else
        (let names = listdir w dirname;
             names = (if \<not> glob_ishidden basename then filter (\<lambda>x. \<not> glob_ishidden x) names
                      else names)
         in map (\<lambda>n. os_path_join dirname [n]) (filter (\<lambda>n. fnmatch n basename) names)))"

text \<open>
  Modelled from the spec: \<^verbatim>\<open>recursive_glob\<close> of \<^verbatim>\<open>maracas.utils\<close>, whose source is not part
  of the module: "recursively via full subtree walk", that is, for every directory
  \<^verbatim>\<open>os.walk\<close> visits below the root, the files of that directory that match the pattern,
  each joined to the directory.
\<close>

definition recursive_glob :: "'s world \<Rightarrow> string \<Rightarrow> string \<Rightarrow> string list" where
  "recursive_glob w treeroot pattern =
     concat (map (\<lambda>(base, ds, fs).
                    map (\<lambda>f. os_path_join base [f]) (filter (\<lambda>f. fnmatch f pattern) fs))
                 (walk w treeroot))"

text \<open>
  Modelled from the spec: \<^verbatim>\<open>wavread\<close> of \<^verbatim>\<open>maracas.utils\<close>, the audio input of the module,
  \<^verbatim>\<open>read(path) -> (samples, sampleRate)\<close>; a path that holds no audio file is an I/O error
  that propagates.
\<close>

definition wavread :: "string \<Rightarrow> 's world \<Rightarrow> (error + ('s \<times> nat)) \<times> 's world" where
  "wavread p w =
     (let w' = log_event (WavRead p) w in
      case wavs w p of None \<Rightarrow> (Inl (IOError p), w') | Some a \<Rightarrow> (Inr a, w'))"

text \<open>
  Modelled from the spec: \<^verbatim>\<open>wavwrite\<close> of \<^verbatim>\<open>maracas.utils\<close>, the audio output of the module,
  \<^verbatim>\<open>write(path, samples, sampleRate) -> void\<close>. The file is created or replaced; writing into a
  directory that does not exist, or onto a directory, is an I/O error that propagates.
\<close>

definition wavwrite :: "string \<Rightarrow> 's \<Rightarrow> nat \<Rightarrow> 's world \<Rightarrow> (error + unit) \<times> 's world" where
  "wavwrite p y fs w =
     (let w' = log_event (WavWrite p fs) w in
      if fs_key p \<in> dirs w \<or> \<not> parent_exists w p then (Inl (IOError p), w')
      else (Inr (), w'\<lparr>wavs := (wavs w)(p \<mapsto> (y, fs))\<rparr>))"

text \<open>
  \<^verbatim>\<open>np.random.choice(a, size, replace=False).tolist()\<close>: the first \<open>sz\<close> positions of a
  fresh permutation of the positions of \<open>a\<close>; a sample larger than the population is a
  \<^verbatim>\<open>ValueError\<close>. The size is a count (a natural number).
\<close>

definition np_random_choice :: "'a list \<Rightarrow> nat \<Rightarrow> 's world \<Rightarrow> (error + 'a list) \<times> 's world" where
  "np_random_choice a sz w =
     (if a = [] \<and> sz \<noteq> 0 then
        (Inl (ValueError ''a cannot be empty unless no samples are taken''), w)
      else if sz > length a then
        (Inl (ValueError ''Cannot take a larger sample than population when replace=False''), w)
      else (Inr (map (\<lambda>i. a ! i) (take sz (perms w (draws w)))), w\<lparr>draws := draws w + 1\<rparr>))"

text \<open>
  The signal processing of \<^verbatim>\<open>maracas\<close> (\<^verbatim>\<open>add_reverb\<close>, \<^verbatim>\<open>add_noise\<close>) is a parameter of the
  embedding: any two functions, which may fail. \<^verbatim>\<open>add_noise\<close> returns the mixed signal and
  the scale factor it applied.
\<close>

record ('s, 'g) dsp =
  add_reverb :: "'s \<Rightarrow> 's \<Rightarrow> nat \<Rightarrow> string \<Rightarrow> error + 's"
  add_noise :: "'s \<Rightarrow> 's \<Rightarrow> nat \<Rightarrow> pyval \<Rightarrow> string \<Rightarrow> error + ('s \<times> 'g)"

section \<open>\<^verbatim>\<open>class Dataset\<close>\<close>

text \<open>
  The two registries are dictionaries; a dictionary keeps its keys in insertion order, and
  assigning to a key that is present replaces the value in place: an association list
  under \<open>AList.update\<close>.
\<close>

record dataset =
  speech :: "string list"
  noise :: "(string \<times> string) list"
  reverb :: "(string \<times> string) list"
  speech_energy :: string

definition Dataset_init :: "string \<Rightarrow> dataset" where
  "Dataset_init energy = \<lparr>speech = [], noise = [], reverb = [], speech_energy = energy\<rparr>"

definition dict_keys :: "(string \<times> string) list \<Rightarrow> string list" where
  "dict_keys d = map fst d"


text \<open>\<^verbatim>\<open>os.path.splitext(os.path.basename(path))[0]\<close>\<close>

definition default_name :: "string \<Rightarrow> string" where
  "default_name path = fst (os_path_splitext (os_path_basename path))"

text \<open>The loop \<^verbatim>\<open>for n, f in zip(name, files): distortion_dict[n] = f\<close>.\<close>

fun assign_all :: "(string \<times> string) list \<Rightarrow> (string \<times> string) list \<Rightarrow> (string \<times> string) list" where
  "assign_all [] distortion_dict = distortion_dict"
| "assign_all ((n, f) # nfs) distortion_dict = assign_all nfs (AList.update n f distortion_dict)"

definition add_distortion_files ::
  "'s world \<Rightarrow> string \<Rightarrow> (string \<times> string) list \<Rightarrow> name_arg option
     \<Rightarrow> error + (string \<times> string) list" where
  "add_distortion_files w path distortion_dict name =
     (if os_path_isfile w path then
        (case name of
           None \<Rightarrow> Inr (AList.update (default_name path) path distortion_dict)
         | Some (NameStr s) \<Rightarrow> Inr (AList.update s path distortion_dict)
         | Some (NameList ns) \<Rightarrow> Inl (TypeError ''unhashable type: list''))
      else if os_path_isdir w path then
        (let files = glob w (os_path_join path [''*.wav'']) @ glob w (os_path_join path [''*.WAV''])
         in case name of
              Some nm \<Rightarrow>
                if type_of_name nm \<noteq> T_list \<or> type_of_name nm \<noteq> T_tuple then
                  Inl (ValueError ''When path is a folder, name has to be a list or tuple with the same length as the number of distortion files in the folder.'')
                else if len_name nm \<noteq> length files then
                  Inl (ValueError ''len(name) needs to be equal to len(files)'')
                else Inr (assign_all (zip (iter_name nm) files) distortion_dict)
            | None \<Rightarrow>
                Inr (assign_all (zip (map default_name files) files) distortion_dict))
      else Inl (ValueError ''Path needs to point to an existing file/folder''))"

definition add_noise_files :: "'s world \<Rightarrow> dataset \<Rightarrow> string \<Rightarrow> name_arg option \<Rightarrow> error + dataset" where
  "add_noise_files w self path name =
     (case add_distortion_files w path (noise self) name of
        Inl e \<Rightarrow> Inl e
      | Inr d \<Rightarrow> Inr (self\<lparr>noise := d\<rparr>))"

definition add_reverb_files :: "'s world \<Rightarrow> dataset \<Rightarrow> string \<Rightarrow> name_arg option \<Rightarrow> error + dataset" where
  "add_reverb_files w self path name =
     (case add_distortion_files w path (reverb self) name of
        Inl e \<Rightarrow> Inl e
      | Inr d \<Rightarrow> Inr (self\<lparr>reverb := d\<rparr>))"

section \<open>\<^verbatim>\<open>class FileGenerator\<close>\<close>

record 's FileGenerator =
  fg_n :: 's
  fg_r :: "'s option"
  fg_snr :: pyval
  fg_output_dir :: string
  fg_condition_name :: string
  fg_speech_energy :: string

definition FileGenerator_init ::
  "'s \<Rightarrow> 's option \<Rightarrow> pyval \<Rightarrow> string \<Rightarrow> string \<Rightarrow> string \<Rightarrow> 's FileGenerator" where
  "FileGenerator_init n r snr output_dir condition_name energy =
     \<lparr>fg_n = n, fg_r = r, fg_snr = snr, fg_output_dir = output_dir,
      fg_condition_name = condition_name, fg_speech_energy = energy\<rparr>"

text \<open>\<^verbatim>\<open>'{}_{}dB'.format(condition_name, snr)\<close>\<close>

definition subfolder_name :: "string \<Rightarrow> pyval \<Rightarrow> string" where
  "subfolder_name condition_name snr = condition_name @ ''_'' @ py_str snr @ ''dB''"

definition FileGenerator_call ::
  "('s, 'g) dsp \<Rightarrow> 's FileGenerator \<Rightarrow> string \<Rightarrow> 's world \<Rightarrow> (error + unit) \<times> 's world" where
  "FileGenerator_call dsp self f w =
     then_do (wavread f w) (\<lambda>(x, fs) w1.
       case (case fg_r self of
               Some r \<Rightarrow> add_reverb dsp x r fs (fg_speech_energy self)
             | None \<Rightarrow> Inr x) of
         Inl e \<Rightarrow> (Inl e, w1)
       | Inr x' \<Rightarrow>
           (case add_noise dsp x' (fg_n self) fs (fg_snr self) (fg_speech_energy self) of
              Inl e \<Rightarrow> (Inl e, w1)
            | Inr (y, scale) \<Rightarrow>
                wavwrite
                  (os_path_join (fg_output_dir self)
                     [subfolder_name (fg_condition_name self) (fg_snr self), os_path_basename f])
                  y fs w1))"

section \<open>\<^verbatim>\<open>Dataset.generate_condition\<close> and \<^verbatim>\<open>Dataset.generate_dataset\<close>\<close>

datatype pool = Pool nat

text \<open>\<^verbatim>\<open>Pool(n_workers)\<close>: a pool needs one process at least.\<close>

definition Pool_init :: "nat \<Rightarrow> error + pool" where
  "Pool_init processes =
     (if processes < 1 then Inl (ValueError ''Number of processes must be at least 1'')
      else Inr (Pool processes))"

definition dict_get :: "(string \<times> string) list \<Rightarrow> string \<Rightarrow> error + string" where
  "dict_get d k = (case map_of d k of None \<Rightarrow> Inl (KeyError k) | Some v \<Rightarrow> Inr v)"

text \<open>\<^verbatim>\<open>if type(snrs) is not list: snrs = [snrs]\<close>\<close>

definition coerce_snrs :: "pyval \<Rightarrow> pyval list" where
  "coerce_snrs snrs = (case snrs of PList xs \<Rightarrow> xs | _ \<Rightarrow> [snrs])"

text \<open>
  Lines 81 to 88: the noise waveform is read, then the reverb waveform if a reverb name is
  given, and the condition name is formed. The result is \<open>(n, r, condition_name)\<close>.
\<close>

definition load_condition ::
  "dataset \<Rightarrow> string \<Rightarrow> string option \<Rightarrow> 's world
     \<Rightarrow> (error + ('s \<times> 's option \<times> string)) \<times> 's world" where
  "load_condition self noise_name reverb_name w =
     (case dict_get (noise self) noise_name of
        Inl e \<Rightarrow> (Inl e, w)
      | Inr noise_path \<Rightarrow>
          then_do (wavread noise_path w) (\<lambda>(n, nfs) w1.
            case reverb_name of
              Some rv \<Rightarrow>
                (case dict_get (reverb self) rv of
                   Inl e \<Rightarrow> (Inl e, w1)
                 | Inr reverb_path \<Rightarrow>
                     then_do (wavread reverb_path w1) (\<lambda>(r, rfs) w2.
                       (Inr (n, Some r, rv @ ''_'' @ noise_name), w2)))
            | None \<Rightarrow> (Inr (n, None, noise_name), w1)))"

text \<open>The loop of lines 95 and 96, inside the \<^verbatim>\<open>try\<close>.\<close>

fun mkdir_each :: "string \<Rightarrow> string \<Rightarrow> pyval list \<Rightarrow> 's world \<Rightarrow> (error + unit) \<times> 's world" where
  "mkdir_each output_dir condition_name [] w = (Inr (), w)"
| "mkdir_each output_dir condition_name (snr # snrs) w =
     (case os_mkdir (os_path_join output_dir [subfolder_name condition_name snr]) w of
        (Inl e, w') \<Rightarrow> (Inl e, w')
      | (Inr u, w') \<Rightarrow> mkdir_each output_dir condition_name snrs w')"

text \<open>Lines 94 to 98: the \<^verbatim>\<open>try\<close> around the whole loop, and its \<^verbatim>\<open>except OSError\<close>.\<close>

definition make_condition_folders ::
  "string \<Rightarrow> string \<Rightarrow> pyval list \<Rightarrow> 's world \<Rightarrow> (error + unit) \<times> 's world" where
  "make_condition_folders output_dir condition_name snrs w =
     (case mkdir_each output_dir condition_name snrs w of
        (Inl (OSError msg), w') \<Rightarrow> (Inr (), py_print ''Condition folder already exists!'' w')
      | (Inl e, w') \<Rightarrow> (Inl e, w')
      | (Inr u, w') \<Rightarrow> (Inr (), w'))"

text \<open>\<^verbatim>\<open>for f in speech_files: filegen_fn(f)\<close>\<close>

fun run_files ::
  "('s, 'g) dsp \<Rightarrow> 's FileGenerator \<Rightarrow> string list \<Rightarrow> 's world \<Rightarrow> (error + unit) \<times> 's world" where
  "run_files dsp filegen_fn [] w = (Inr (), w)"
| "run_files dsp filegen_fn (f # speech_files) w =
     (case FileGenerator_call dsp filegen_fn f w of
        (Inl e, w') \<Rightarrow> (Inl e, w')
      | (Inr u, w') \<Rightarrow> run_files dsp filegen_fn speech_files w')"

text \<open>
  \<^verbatim>\<open>pool.map(filegen_fn, speech_files)\<close>: every task is run by the workers of the pool, also
  after one of them has failed, and the first failure is raised again once all have run.
  The embedding runs the tasks in the order of the list, the schedule of a pool of one
  worker. \<open>pool_tasks\<close> returns the first failure, if any, and the world after the last
  task.
\<close>

fun pool_tasks ::
  "('s, 'g) dsp \<Rightarrow> 's FileGenerator \<Rightarrow> string list \<Rightarrow> 's world \<Rightarrow> error option \<times> 's world" where
  "pool_tasks dsp filegen_fn [] w = (None, w)"
| "pool_tasks dsp filegen_fn (f # speech_files) w =
     (case FileGenerator_call dsp filegen_fn f w of
        (res, w1) \<Rightarrow>
          (case pool_tasks dsp filegen_fn speech_files w1 of
             (err, w2) \<Rightarrow> (case res of Inl e \<Rightarrow> (Some e, w2) | Inr u \<Rightarrow> (err, w2))))"

definition pool_map ::
  "pool \<Rightarrow> ('s, 'g) dsp \<Rightarrow> 's FileGenerator \<Rightarrow> string list \<Rightarrow> 's world
     \<Rightarrow> (error + unit) \<times> 's world" where
  "pool_map p dsp filegen_fn speech_files w =
     (case pool_tasks dsp filegen_fn speech_files w of
        (None, w') \<Rightarrow> (Inr (), w')
      | (Some e, w') \<Rightarrow> (Inl e, w'))"

text \<open>Lines 101 to 104: the speech files of one SNR.\<close>

definition choose_speech_files ::
  "dataset \<Rightarrow> nat option \<Rightarrow> 's world \<Rightarrow> (error + string list) \<times> 's world" where
  "choose_speech_files self files_per_condition w =
     (case files_per_condition of
        Some m \<Rightarrow> np_random_choice (speech self) m w
      | None \<Rightarrow> (Inr (speech self), w))"

text \<open>Lines 101 to 114: the body of the loop over the SNRs.\<close>

definition snr_step ::
  "('s, 'g) dsp \<Rightarrow> dataset \<Rightarrow> 's \<Rightarrow> 's option \<Rightarrow> string \<Rightarrow> string \<Rightarrow> nat option \<Rightarrow> pool option
     \<Rightarrow> pyval \<Rightarrow> 's world \<Rightarrow> (error + unit) \<times> 's world" where
  "snr_step dsp self n r output_dir condition_name files_per_condition pool snr w =
     then_do (choose_speech_files self files_per_condition w) (\<lambda>speech_files w1.
       let filegen_fn =
             FileGenerator_init n r snr output_dir condition_name (speech_energy self)
       in case pool of
            Some p \<Rightarrow> pool_map p dsp filegen_fn speech_files w1
          | None \<Rightarrow> run_files dsp filegen_fn speech_files w1)"

fun snr_loop ::
  "('s, 'g) dsp \<Rightarrow> dataset \<Rightarrow> 's \<Rightarrow> 's option \<Rightarrow> string \<Rightarrow> string \<Rightarrow> nat option \<Rightarrow> pool option
     \<Rightarrow> pyval list \<Rightarrow> 's world \<Rightarrow> (error + unit) \<times> 's world" where
  "snr_loop dsp self n r output_dir condition_name files_per_condition pool [] w = (Inr (), w)"
| "snr_loop dsp self n r output_dir condition_name files_per_condition pool (snr # snrs) w =
     (case snr_step dsp self n r output_dir condition_name files_per_condition pool snr w of
        (Inl e, w') \<Rightarrow> (Inl e, w')
      | (Inr u, w') \<Rightarrow>
          snr_loop dsp self n r output_dir condition_name files_per_condition pool snrs w')"

definition generate_condition ::
  "('s, 'g) dsp \<Rightarrow> dataset \<Rightarrow> pyval \<Rightarrow> string \<Rightarrow> string \<Rightarrow> string option \<Rightarrow> nat option
     \<Rightarrow> pool option \<Rightarrow> 's world \<Rightarrow> (error + unit) \<times> 's world" where
  "generate_condition dsp self snrs noise_name output_dir reverb_name files_per_condition pool w =
     (if noise_name \<notin> set (dict_keys (noise self)) then
        (Inl (ValueError ''noise not in dataset''), w)
      else
        (let snrs' = coerce_snrs snrs in
         then_do (load_condition self noise_name reverb_name w) (\<lambda>(n, r, condition_name) w2.
         then_do (if \<not> os_path_isdir w2 output_dir then os_mkdir output_dir w2 else (Inr (), w2))
           (\<lambda>u w3.
         then_do (make_condition_folders output_dir condition_name snrs' w3) (\<lambda>u w4.
         snr_loop dsp self n r output_dir condition_name files_per_condition pool snrs' w4)))))"

text \<open>\<^verbatim>\<open>itertools.product(self.reverb.keys(), self.noise.keys())\<close>\<close>

definition dataset_conditions :: "dataset \<Rightarrow> (string \<times> string) list" where
  "dataset_conditions self = List.product (dict_keys (reverb self)) (dict_keys (noise self))"

fun condition_loop ::
  "('s, 'g) dsp \<Rightarrow> dataset \<Rightarrow> pyval \<Rightarrow> string \<Rightarrow> nat option \<Rightarrow> pool
     \<Rightarrow> (string \<times> string) list \<Rightarrow> 's world \<Rightarrow> (error + unit) \<times> 's world" where
  "condition_loop dsp self snrs output_dir files_per_condition pool [] w = (Inr (), w)"
| "condition_loop dsp self snrs output_dir files_per_condition pool ((rv, nz) # rest) w =
     (case generate_condition dsp self snrs nz output_dir (Some rv) files_per_condition
             (Some pool) w of
        (Inl e, w') \<Rightarrow> (Inl e, w')
      | (Inr u, w') \<Rightarrow>
          condition_loop dsp self snrs output_dir files_per_condition pool rest w')"

definition generate_dataset ::
  "('s, 'g) dsp \<Rightarrow> dataset \<Rightarrow> pyval \<Rightarrow> string \<Rightarrow> nat option \<Rightarrow> nat \<Rightarrow> 's world
     \<Rightarrow> (error + unit) \<times> 's world" where
  "generate_dataset dsp self snrs output_dir files_per_condition n_workers w =
     (let snrs' = PList (coerce_snrs snrs) in
      case Pool_init n_workers of
        Inl e \<Rightarrow> (Inl e, w)
      | Inr pool \<Rightarrow>
          condition_loop dsp self snrs' output_dir files_per_condition pool
            (dataset_conditions self) w)"

section \<open>A concrete file system and dataset\<close>

text \<open>
  Samples are lists of naturals; reverberation and noise are stood in for by
  concatenation. The tree holds two speech files and a text file in \<^verbatim>\<open>speech\<close>, a third
  speech file in \<^verbatim>\<open>speech/sub\<close>, two noise files in \<^verbatim>\<open>noises\<close> and an impulse response in
  \<^verbatim>\<open>rirs\<close>; the output directory \<^verbatim>\<open>out\<close> does not exist yet.
\<close>

definition demo_dsp :: "(nat list, nat) dsp" where
  "demo_dsp =
     \<lparr>add_reverb = (\<lambda>x r fs e. Inr (x @ r)), add_noise = (\<lambda>x n fs snr e. Inr (x @ n, 1))\<rparr>"

definition demo_wavs :: "string \<rightharpoonup> (nat list \<times> nat)" where
  "demo_wavs =
     [''speech/a.wav'' \<mapsto> ([1, 2], 16000), ''speech/b.WAV'' \<mapsto> ([3], 8000),
      ''speech/sub/c.wav'' \<mapsto> ([4], 16000), ''speech/notes.txt'' \<mapsto> ([], 0),
      ''noises/n.wav'' \<mapsto> ([7], 16000), ''noises/m.wav'' \<mapsto> ([9], 16000),
      ''rirs/r.wav'' \<mapsto> ([5], 16000)]"

definition demo_listdir :: "string \<Rightarrow> string list" where
  "demo_listdir d =
     (if d = ''speech'' then [''a.wav'', ''sub'', ''b.WAV'', ''notes.txt'']
      else if d = ''speech/sub'' then [''c.wav'']
      else if d = ''noises'' then [''n.wav'', ''m.wav'']
      else if d = ''rirs'' then [''r.wav'']
      else [])"

definition demo_walk :: "string \<Rightarrow> (string \<times> string list \<times> string list) list" where
  "demo_walk d =
     (if d = ''speech'' then
        [(''speech'', [''sub''], [''a.wav'', ''b.WAV'', ''notes.txt'']),
         (''speech/sub'', [], [''c.wav''])]
      else [])"

definition demo_world :: "nat list world" where
  "demo_world =
     \<lparr>wavs = demo_wavs, dirs = {''speech'', ''speech/sub'', ''noises'', ''rirs''},
      listdir = demo_listdir, walk = demo_walk, glob_magic = (\<lambda>p. []),
      perms = (\<lambda>k. [1, 0]), draws = 0, trace = []\<rparr>"

definition demo_dataset :: dataset where
  "demo_dataset =
     \<lparr>speech = [''speech/a.wav'', ''speech/b.WAV''],
      noise = [(''white'', ''noises/n.wav'')],
      reverb = [(''room1'', ''rirs/r.wav'')],
      speech_energy = ''P.56''\<rparr>"

text \<open>The same dataset before any impulse response is registered.\<close>

definition noise_only_dataset :: dataset where
  "noise_only_dataset = demo_dataset\<lparr>reverb := []\<rparr>"

text \<open>The same dataset with one speech file registered twice.\<close>

definition repeated_dataset :: dataset where
  "repeated_dataset = demo_dataset\<lparr>speech := [''speech/a.wav'', ''speech/a.wav'']\<rparr>"

text \<open>The same file system after an earlier run has left \<^verbatim>\<open>out/white_0dB\<close> behind.\<close>

definition rerun_world :: "nat list world" where
  "rerun_world = demo_world\<lparr>dirs := {''out'', ''out/white_0dB''} \<union> dirs demo_world\<rparr>"

text \<open>
  A directory \<^verbatim>\<open>odd\<close> that holds a hidden wav file, a subdirectory named \<^verbatim>\<open>clips.wav\<close> and
  a wav file.
\<close>

definition odd_world :: "nat list world" where
  "odd_world =
     demo_world
       \<lparr>wavs := (wavs demo_world)(''odd/.hidden.wav'' \<mapsto> ([6], 16000), ''odd/a.wav'' \<mapsto> ([8], 16000)),
        dirs := {''odd'', ''odd/clips.wav''} \<union> dirs demo_world,
        listdir := (\<lambda>d. if d = ''odd'' then [''.hidden.wav'', ''clips.wav'', ''a.wav'']
                         else listdir demo_world d)\<rparr>"

text \<open>The same dataset with its noise registered under a name that is an absolute path.\<close>

definition absolute_name_dataset :: dataset where
  "absolute_name_dataset = demo_dataset\<lparr>noise := [(''/tmp/x'', ''noises/n.wav'')]\<rparr>"

text \<open>The same file system with a directory \<^verbatim>\<open>/tmp\<close>.\<close>

definition tmp_world :: "nat list world" where
  "tmp_world = demo_world\<lparr>dirs := {''/tmp''} \<union> dirs demo_world\<rparr>"

section \<open>Notions the statements use\<close>









text \<open>The paths of the \<^verbatim>\<open>wavread\<close> calls in a trace, in order.\<close>

fun files_read :: "event list \<Rightarrow> string list" where
  "files_read [] = []"
| "files_read (WavRead p # evs) = p # files_read evs"
| "files_read (ev # evs) = files_read evs"

text \<open>A call has failed when its result is an exception.\<close>

definition failed :: "(error + 'a) \<times> 'w \<Rightarrow> bool" where
  "failed res = isl (fst res)"

text \<open>
  A job is one output file to generate: a condition name, an SNR and a speech file. Its
  output path is
  \<^verbatim>\<open>os.path.join(output_dir, '{}_{}dB'.format(condition_name, snr), os.path.basename(f))\<close>.
\<close>

type_synonym job = "string \<times> pyval \<times> string"

definition out_path :: "string \<Rightarrow> string \<Rightarrow> pyval \<Rightarrow> string \<Rightarrow> string" where
  "out_path output_dir condition_name snr f =
     os_path_join output_dir [condition_name @ ''_'' @ py_str snr @ ''dB'', os_path_basename f]"

text \<open>The \<^verbatim>\<open>wavwrite\<close> calls in a trace, in order: the path and the sample rate of each.\<close>

fun written :: "event list \<Rightarrow> (string \<times> nat) list" where
  "written [] = []"
| "written (WavWrite p fs # evs) = (p, fs) # written evs"
| "written (ev # evs) = written evs"

text \<open>The sample rate of every audio file of the world.\<close>

definition rate_map :: "'s world \<Rightarrow> string \<rightharpoonup> nat" where
  "rate_map w = (\<lambda>p. map_option snd (wavs w p))"

text \<open>
  The writes a list of jobs makes, in order, from the sample rates \<open>m\<close> the files have at
  the start: each job writes its output path at the rate its speech file has when the job
  runs, and the file written has that rate from then on (a later job that reads a file an
  earlier job has written reads the rate written). A job whose speech file does not exist
  writes nothing. \<open>rates_after\<close> is the sample rates the files have after the jobs.
\<close>

fun expected_writes :: "string \<Rightarrow> (string \<rightharpoonup> nat) \<Rightarrow> job list \<Rightarrow> (string \<times> nat) list" where
  "expected_writes output_dir m [] = []"
| "expected_writes output_dir m ((cn, snr, f) # jobs) =
     (case m f of
        None \<Rightarrow> expected_writes output_dir m jobs
      | Some fs \<Rightarrow>
          (out_path output_dir cn snr f, fs)
            # expected_writes output_dir (m(out_path output_dir cn snr f \<mapsto> fs)) jobs)"

fun rates_after :: "string \<Rightarrow> (string \<rightharpoonup> nat) \<Rightarrow> job list \<Rightarrow> (string \<rightharpoonup> nat)" where
  "rates_after output_dir m [] = m"
| "rates_after output_dir m ((cn, snr, f) # jobs) =
     (case m f of
        None \<Rightarrow> rates_after output_dir m jobs
      | Some fs \<Rightarrow> rates_after output_dir (m(out_path output_dir cn snr f \<mapsto> fs)) jobs)"

text \<open>
  The speech files of the \<open>k\<close>-th SNR step of a run that starts in the world \<open>w\<close>: the whole
  speech list when \<^verbatim>\<open>files_per_condition\<close> is \<^verbatim>\<open>None\<close>, else the files at the first positions
  of the \<open>k\<close>-th permutation the generator draws from \<open>w\<close> on.
\<close>

definition chosen_files :: "dataset \<Rightarrow> nat option \<Rightarrow> 's world \<Rightarrow> nat \<Rightarrow> string list" where
  "chosen_files self files_per_condition w k =
     (case files_per_condition of
        None \<Rightarrow> speech self
      | Some m \<Rightarrow> map (\<lambda>i. speech self ! i) (take m (perms w (draws w + k))))"

text \<open>The jobs of one condition: for each SNR in turn, one job per speech file chosen for it.\<close>

definition jobs_of :: "string \<Rightarrow> pyval list \<Rightarrow> (nat \<Rightarrow> string list) \<Rightarrow> job list" where
  "jobs_of cn snrs files =
     concat (map (\<lambda>(k, snr). map (\<lambda>f. (cn, snr, f)) (files k)) (enumerate 0 snrs))"

text \<open>
  The jobs of a list of conditions (reverb name and noise name), each run over the same
  SNRs: the \<open>c\<close>-th condition draws after the \<open>c * length snrs\<close> draws of the conditions
  before it.
\<close>

definition dataset_jobs ::
  "(string \<times> string) list \<Rightarrow> pyval list \<Rightarrow> (nat \<Rightarrow> string list) \<Rightarrow> job list" where
  "dataset_jobs conditions snrs files =
     concat (map (\<lambda>(c, (rv, nz)). jobs_of (rv @ ''_'' @ nz) snrs (\<lambda>k. files (c * length snrs + k)))
                 (enumerate 0 conditions))"

text \<open>Two worlds with the same writes traced, the same sample rates and the same generator.\<close>

definition quiet :: "'s world \<Rightarrow> 's world \<Rightarrow> bool" where
  "quiet w w' =
     (written (trace w') = written (trace w) \<and> rate_map w' = rate_map w \<and> perms w' = perms w)"

text \<open>
  The step from \<open>w\<close> to \<open>w'\<close> has run the jobs: the trace has gained their writes and no
  other, none of them was skipped, and the sample rates are those the jobs leave.
\<close>

definition jobs_done :: "string \<Rightarrow> job list \<Rightarrow> 's world \<Rightarrow> 's world \<Rightarrow> bool" where
  "jobs_done output_dir jobs w w' =
     (written (trace w') = written (trace w) @ expected_writes output_dir (rate_map w) jobs \<and>
      map fst (expected_writes output_dir (rate_map w) jobs)
        = map (\<lambda>(cn, snr, f). out_path output_dir cn snr f) jobs \<and>
      rate_map w' = rates_after output_dir (rate_map w) jobs \<and>
      perms w' = perms w)"

section \<open>Unfolding the model on concrete inputs\<close>

lemmas path_defs = join2_def os_path_join_def os_path_basename_def rstrip_sep_def
  os_path_split_def os_path_dirname_def rfind_def os_path_splitext_def fs_key_def default_name_def

lemmas io_defs = then_do_def log_event_def os_path_isfile_def os_path_isdir_def
  parent_exists_def os_mkdir_def py_print_def wavread_def wavwrite_def np_random_choice_def
  glob_def glob_ishidden_def has_magic_def recursive_glob_def

lemmas gen_defs = FileGenerator_init_def subfolder_name_def FileGenerator_call_def
  dict_get_def dict_keys_def coerce_snrs_def load_condition_def make_condition_folders_def
  pool_map_def choose_speech_files_def snr_step_def generate_condition_def
  dataset_conditions_def Pool_init_def generate_dataset_def str_int_def str_nat.simps

lemmas demo_defs = demo_dsp_def demo_wavs_def demo_listdir_def demo_walk_def demo_world_def
  demo_dataset_def noise_only_dataset_def repeated_dataset_def rerun_world_def odd_world_def
  Dataset_init_def

lemmas job_defs = out_path_def rate_map_def chosen_files_def jobs_of_def dataset_jobs_def
  absolute_name_dataset_def tmp_world_def

section \<open>Facts about dictionaries and paths\<close>

lemma update_keeps_distinct:
  "distinct (map fst d) \<Longrightarrow> distinct (map fst (AList.update k v d))"
  by (simp add: distinct_update)

lemma update_present_length: "k \<in> fst ` set d \<Longrightarrow> length (AList.update k v d) = length d"
  by (induction d) auto

lemma takeWhile_stop:
  "\<forall>x\<in>set xs. P x \<Longrightarrow> \<not> P y \<Longrightarrow> takeWhile P (xs @ y # ys) = xs"
  by (simp add: takeWhile_append2)

lemma takeWhile_whole: "\<forall>x\<in>set xs. P x \<Longrightarrow> takeWhile P xs = xs"
  by (simp add: takeWhile_eq_all_conv)

lemma basename_append:
  assumes "CHR ''/'' \<notin> set b" and "pre = [] \<or> last pre = CHR ''/''"
  shows "os_path_basename (pre @ b) = b"
proof (cases pre rule: rev_cases)
  case Nil
  have "\<forall>x\<in>set (rev b). x \<noteq> CHR ''/''" using assms(1) by auto
  then have "takeWhile (\<lambda>c. c \<noteq> CHR ''/'') (rev b) = rev b" by (rule takeWhile_whole)
  then show ?thesis unfolding os_path_basename_def Nil by (simp only: append_Nil rev_rev_ident)
next
  case (snoc ys y)
  then have y: "y = CHR ''/''" using assms(2) by simp
  have "takeWhile (\<lambda>c. c \<noteq> CHR ''/'') (rev b @ CHR ''/'' # rev ys) = rev b"
    using assms(1) takeWhile_stop[of "rev b" "\<lambda>c. c \<noteq> CHR ''/''" "CHR ''/''" "rev ys"] by auto
  then show ?thesis using snoc y by (simp add: os_path_basename_def)
qed

lemma rfind_none: "c \<notin> set p \<Longrightarrow> rfind p c = - 1"
  by (simp add: rfind_def)

lemma rfind_last: "c \<notin> set ext \<Longrightarrow> rfind (stem @ c # ext) c = int (length stem)"
proof -
  assume c: "c \<notin> set ext"
  have "takeWhile (\<lambda>x. x \<noteq> c) (rev ext @ c # rev stem) = rev ext"
    using c takeWhile_stop[of "rev ext" "\<lambda>x. x \<noteq> c" c "rev stem"] by auto
  then show ?thesis by (simp add: rfind_def)
qed

lemma splitext_stem:
  assumes "CHR ''/'' \<notin> set stem" "CHR ''/'' \<notin> set ext" "CHR ''.'' \<notin> set ext"
      and "list_ex (\<lambda>c. c \<noteq> CHR ''.'') stem"
  shows "os_path_splitext (stem @ ''.'' @ ext) = (stem, ''.'' @ ext)"
proof -
  have s: "rfind (stem @ ''.'' @ ext) CHR ''/'' = - 1"
    using assms by (intro rfind_none) auto
  have d: "rfind (stem @ ''.'' @ ext) CHR ''.'' = int (length stem)"
    using assms(3) rfind_last[of "CHR ''.''" ext stem] by simp
  show ?thesis
    unfolding os_path_splitext_def Let_def s d using assms(4) by simp
qed

lemma default_name_stem:
  assumes "CHR ''/'' \<notin> set stem" "CHR ''/'' \<notin> set ext" "CHR ''.'' \<notin> set ext"
      and "list_ex (\<lambda>c. c \<noteq> CHR ''.'') stem" and "pre = [] \<or> last pre = CHR ''/''"
  shows "default_name (pre @ stem @ ''.'' @ ext) = stem"
proof -
  have "os_path_basename (pre @ stem @ ''.'' @ ext) = stem @ ''.'' @ ext"
    using assms by (intro basename_append) auto
  then show ?thesis using splitext_stem[OF assms(1-4)] by (simp add: default_name_def)
qed

section \<open>Registering speech files\<close>



























section \<open>Registering distortion files\<close>

text \<open>
  C1. Registering a directory of K distortion files with a list of K names should give K
  entries, and a list of another length should fail. In the code the test of line 53,
  \<^verbatim>\<open>type(name) != list or type(name) != tuple\<close>, holds for every value, so for a directory
  every call that passes names raises the \<^verbatim>\<open>ValueError\<close> of line 54, whatever their number:
  the registry is never filled from an explicit list.
\<close>

theorem folder_registration_rejects_names:
  assumes "\<not> os_path_isfile w path" and "os_path_isdir w path"
  shows "add_distortion_files w path d (Some nm) =
           Inl (ValueError ''When path is a folder, name has to be a list or tuple with the same length as the number of distortion files in the folder.'')"
  using assms by (cases nm) (simp_all add: add_distortion_files_def Let_def)

text \<open>
  The directory \<^verbatim>\<open>noises\<close> holds two wav files; registering it with two names fails.
\<close>

theorem folder_registration_rejects_names_witness:
  "\<not> os_path_isfile demo_world ''noises'' \<and> os_path_isdir demo_world ''noises'' \<and>
   glob demo_world (os_path_join ''noises'' [''*.wav''])
     @ glob demo_world (os_path_join ''noises'' [''*.WAV''])
     = [''noises/n.wav'', ''noises/m.wav''] \<and>
   add_noise_files demo_world (Dataset_init ''P.56'') ''noises''
       (Some (NameList [''white'', ''pink'']))
     = Inl (ValueError ''When path is a folder, name has to be a list or tuple with the same length as the number of distortion files in the folder.'')"
proof -
  have f: "\<not> os_path_isfile demo_world ''noises''"
    by (simp add: os_path_isfile_def demo_world_def demo_wavs_def)
  have d: "os_path_isdir demo_world ''noises''"
    by (simp add: os_path_isdir_def demo_world_def fs_key_def rstrip_sep_def)
  have g: "glob demo_world (os_path_join ''noises'' [''*.wav''])
             @ glob demo_world (os_path_join ''noises'' [''*.WAV''])
             = [''noises/n.wav'', ''noises/m.wav'']"
    by (simp add: path_defs glob_def glob_ishidden_def has_magic_def demo_world_def
        demo_listdir_def)
  show ?thesis
    using f d g
      folder_registration_rejects_names
        [OF f d, of "noise (Dataset_init ''P.56'')" "NameList [''white'', ''pink'']"]
    by (simp add: add_noise_files_def)
qed

text \<open>
  C8. An existing single file registered with no explicit name is entered under
  \<^verbatim>\<open>os.path.splitext(os.path.basename(path))[0]\<close>, which for a path \<^verbatim>\<open>dir/stem.ext\<close> is
  \<^verbatim>\<open>stem\<close>; an explicit name is the key as given. Assigning to a key \<open>k\<close> makes \<open>k\<close> map to
  the new path and leaves every other key alone; a registry with one entry per name keeps
  one entry per name, and a key that was present gets no second entry: the old path is
  replaced, silently.
\<close>

theorem single_file_default_key:
  assumes "os_path_isfile w path"
  shows "add_distortion_files w path d None = Inr (AList.update (default_name path) path d) \<and>
         add_distortion_files w path d (Some (NameStr s)) = Inr (AList.update s path d) \<and>
         (CHR ''/'' \<notin> set stem \<and> CHR ''/'' \<notin> set ext \<and> CHR ''.'' \<notin> set ext \<and>
          list_ex (\<lambda>c. c \<noteq> CHR ''.'') stem \<and> (pre = [] \<or> last pre = CHR ''/'') \<and>
          path = pre @ stem @ ''.'' @ ext \<longrightarrow> default_name path = stem) \<and>
         map_of (AList.update k path d) k = Some path \<and>
         (\<forall>k'. k' \<noteq> k \<longrightarrow> map_of (AList.update k path d) k' = map_of d k') \<and>
         (distinct (dict_keys d) \<longrightarrow> distinct (dict_keys (AList.update k path d))) \<and>
         (k \<in> set (dict_keys d) \<longrightarrow> length (AList.update k path d) = length d)"
proof -
  have a: "add_distortion_files w path d None = Inr (AList.update (default_name path) path d)"
    and b: "add_distortion_files w path d (Some (NameStr s)) = Inr (AList.update s path d)"
    using assms by (simp_all add: add_distortion_files_def)
  have c: "CHR ''/'' \<notin> set stem \<and> CHR ''/'' \<notin> set ext \<and> CHR ''.'' \<notin> set ext \<and>
          list_ex (\<lambda>c. c \<noteq> CHR ''.'') stem \<and> (pre = [] \<or> last pre = CHR ''/'') \<and>
          path = pre @ stem @ ''.'' @ ext \<longrightarrow> default_name path = stem"
    using default_name_stem[of stem ext pre] by blast
  have e: "map_of (AList.update k path d) k = Some path"
    and f: "\<forall>k'. k' \<noteq> k \<longrightarrow> map_of (AList.update k path d) k' = map_of d k'"
    by (simp_all add: update_conv')
  have g: "distinct (dict_keys d) \<longrightarrow> distinct (dict_keys (AList.update k path d))"
    by (simp add: dict_keys_def update_keeps_distinct)
  have h: "k \<in> set (dict_keys d) \<longrightarrow> length (AList.update k path d) = length d"
    by (simp add: dict_keys_def update_present_length)
  show ?thesis using a b c e f g h by blast
qed

text \<open>
  \<^verbatim>\<open>noises/m.wav\<close> registered without a name is entered under \<^verbatim>\<open>m\<close>, after the entry that
  was there; registered under the name \<^verbatim>\<open>white\<close>, which is taken, it replaces that entry.
\<close>

theorem single_file_default_key_witness:
  "os_path_isfile demo_world ''noises/m.wav'' \<and>
   default_name ''noises/m.wav'' = ''m'' \<and>
   add_noise_files demo_world demo_dataset ''noises/m.wav'' None
     = Inr (demo_dataset\<lparr>noise := [(''white'', ''noises/n.wav''), (''m'', ''noises/m.wav'')]\<rparr>) \<and>
   ''white'' \<in> set (dict_keys (noise demo_dataset)) \<and>
   add_noise_files demo_world demo_dataset ''noises/m.wav'' (Some (NameStr ''white''))
     = Inr (demo_dataset\<lparr>noise := [(''white'', ''noises/m.wav'')]\<rparr>) \<and>
   map_of (AList.update ''white'' ''noises/m.wav'' (noise demo_dataset)) ''white''
     = Some ''noises/m.wav'' \<and>
   length (AList.update ''white'' ''noises/m.wav'' (noise demo_dataset))
     = length (noise demo_dataset)"
proof -
  have f: "os_path_isfile demo_world ''noises/m.wav''"
    by (simp add: os_path_isfile_def demo_world_def demo_wavs_def)
  have k: "''white'' \<in> set (dict_keys (noise demo_dataset))"
    by (simp add: dict_keys_def demo_dataset_def)
  have n: "noise demo_dataset = [(''white'', ''noises/n.wav'')]"
    by (simp add: demo_dataset_def)
  note t = single_file_default_key
             [OF f, of "noise demo_dataset" "''white''" "''m''" "''wav''" "''noises/''" "''white''"]
  have m: "default_name ''noises/m.wav'' = ''m''"
    using t by simp
  have a: "add_distortion_files demo_world ''noises/m.wav'' (noise demo_dataset) None
             = Inr [(''white'', ''noises/n.wav''), (''m'', ''noises/m.wav'')]"
    using t m by (simp add: n)
  have b: "add_distortion_files demo_world ''noises/m.wav'' (noise demo_dataset)
             (Some (NameStr ''white'')) = Inr [(''white'', ''noises/m.wav'')]"
    using t by (simp add: n)
  have c: "map_of (AList.update ''white'' ''noises/m.wav'' (noise demo_dataset)) ''white''
     = Some ''noises/m.wav''"
    using t by blast
  have d: "length (AList.update ''white'' ''noises/m.wav'' (noise demo_dataset))
     = length (noise demo_dataset)"
    using t k by blast
  show ?thesis
    using f k m a b c d by (simp add: add_noise_files_def)
qed


section \<open>Generating one condition\<close>

text \<open>
  C4. A noise name that is not a key of the noise registry makes \<^verbatim>\<open>generate_condition\<close>
  raise \<^verbatim>\<open>ValueError('noise not in dataset')\<close> at once: the world it leaves is the world it
  found, with no directory made and no audio file read or written.
\<close>

theorem generate_condition_unknown_noise:
  assumes "noise_name \<notin> set (dict_keys (noise self))"
  shows "generate_condition dsp self snrs noise_name output_dir reverb_name files_per_condition
           pool w = (Inl (ValueError ''noise not in dataset''), w)"
  using assms by (simp add: generate_condition_def)

theorem generate_condition_unknown_noise_witness:
  "''pink'' \<notin> set (dict_keys (noise demo_dataset)) \<and>
   generate_condition demo_dsp demo_dataset (PList [PInt 0, PInt 10]) ''pink'' ''out'' None None
     None demo_world = (Inl (ValueError ''noise not in dataset''), demo_world)"
proof -
  have h: "''pink'' \<notin> set (dict_keys (noise demo_dataset))"
    by (simp add: dict_keys_def demo_dataset_def)
  show ?thesis
    using h generate_condition_unknown_noise [OF h] by simp
qed

text \<open>
  C9. A reverb name that is not a key of the reverb registry is not checked for: with a
  noise registered at path \<open>p\<close> the call first reads \<open>p\<close>, and when that file is readable
  it then fails on the lookup \<^verbatim>\<open>self.reverb[reverb]\<close> with a \<^verbatim>\<open>KeyError\<close> of the name, not with
  the \<^verbatim>\<open>ValueError\<close> an unknown noise gets. (When \<open>p\<close> cannot be read, the read error comes
  first.) The read of \<open>p\<close> is the one call the trace gains; nothing else has changed.
\<close>

theorem generate_condition_unknown_reverb:
  assumes "map_of (noise self) noise_name = Some p"
      and "rv \<notin> set (dict_keys (reverb self))"
  shows "generate_condition dsp self snrs noise_name output_dir (Some rv) files_per_condition
           pool w
           = (Inl (case wavs w p of None \<Rightarrow> IOError p | Some a \<Rightarrow> KeyError rv),
              log_event (WavRead p) w)"
proof -
  have k: "noise_name \<in> set (dict_keys (noise self))"
    using assms(1) by (auto simp: dict_keys_def dest: map_of_SomeD intro: rev_image_eqI)
  have r: "map_of (reverb self) rv = None"
    using assms(2) by (simp add: dict_keys_def map_of_eq_None_iff)
  show ?thesis
    using k r assms(1)
    by (simp add: generate_condition_def load_condition_def dict_get_def wavread_def then_do_def
        split: option.splits prod.splits)
qed

theorem generate_condition_unknown_reverb_witness:
  "map_of (noise demo_dataset) ''white'' = Some ''noises/n.wav'' \<and>
   ''hall'' \<notin> set (dict_keys (reverb demo_dataset)) \<and>
   wavs demo_world ''noises/n.wav'' = Some ([7], 16000) \<and>
   generate_condition demo_dsp demo_dataset (PList [PInt 0]) ''white'' ''out'' (Some ''hall'') None
     None demo_world
     = (Inl (KeyError ''hall''), log_event (WavRead ''noises/n.wav'') demo_world) \<and>
   trace (log_event (WavRead ''noises/n.wav'') demo_world) = [WavRead ''noises/n.wav'']"
proof -
  have n: "map_of (noise demo_dataset) ''white'' = Some ''noises/n.wav''"
    by (simp add: demo_dataset_def)
  have r: "''hall'' \<notin> set (dict_keys (reverb demo_dataset))"
    by (simp add: dict_keys_def demo_dataset_def)
  have f: "wavs demo_world ''noises/n.wav'' = Some ([7], 16000)"
    by (simp add: demo_world_def demo_wavs_def)
  have t: "trace (log_event (WavRead ''noises/n.wav'') demo_world) = [WavRead ''noises/n.wav'']"
    by (simp add: log_event_def demo_world_def)
  show ?thesis
    using n r f t
      generate_condition_unknown_reverb
        [OF n r, of demo_dsp "PList [PInt 0]" "''out''" None None demo_world]
    by simp
qed

text \<open>
  C3. After the folder-creation step every SNR of the list should have its subfolder, an
  existing one costing a warning only. In the code the \<^verbatim>\<open>try\<close> of line 94 encloses the whole
  loop, so the first \<^verbatim>\<open>os.mkdir\<close> that fails ends the loop: when the subfolder of the first
  SNR exists, the step prints the warning and makes no directory at all, whatever SNRs
  follow.
\<close>

theorem condition_folders_stop_at_existing:
  assumes "fs_key (os_path_join output_dir [subfolder_name condition_name snr]) \<in> dirs w"
  shows "make_condition_folders output_dir condition_name (snr # snrs) w =
           (Inr (), py_print ''Condition folder already exists!''
                      (log_event (MkDir (os_path_join output_dir [subfolder_name condition_name snr])) w))
         \<and> dirs (snd (make_condition_folders output_dir condition_name (snr # snrs) w)) = dirs w"
  using assms by (simp add: make_condition_folders_def os_mkdir_def Let_def py_print_def log_event_def)

text \<open>
  With \<^verbatim>\<open>out/white_0dB\<close> left by an earlier run and the SNRs 0 and 10, the step succeeds
  and \<^verbatim>\<open>out/white_10dB\<close> does not exist after it; the run then fails on its first write into
  that folder.
\<close>

theorem condition_folders_stop_at_existing_witness:
  "fs_key (os_path_join ''out'' [subfolder_name ''white'' (PInt 0)]) \<in> dirs rerun_world \<and>
   fst (make_condition_folders ''out'' ''white'' [PInt 0, PInt 10] rerun_world) = Inr () \<and>
   os_path_join ''out'' [subfolder_name ''white'' (PInt 10)] = ''out/white_10dB'' \<and>
   ''out/white_10dB'' \<notin> dirs (snd (make_condition_folders ''out'' ''white'' [PInt 0, PInt 10] rerun_world)) \<and>
   fst (generate_condition demo_dsp demo_dataset (PList [PInt 0, PInt 10]) ''white'' ''out'' None None None
          rerun_world) = Inl (IOError ''out/white_10dB/a.wav'')"
proof -
  have h: "fs_key (os_path_join ''out'' [subfolder_name ''white'' (PInt 0)]) \<in> dirs rerun_world"
    by (simp add: path_defs subfolder_name_def str_int_def str_nat.simps rerun_world_def demo_world_def)
  have n: "os_path_join ''out'' [subfolder_name ''white'' (PInt 10)] = ''out/white_10dB''"
    by (simp add: path_defs subfolder_name_def str_int_def str_nat.simps)
  have d: "''out/white_10dB'' \<notin> dirs rerun_world"
    by (simp add: rerun_world_def demo_world_def)
  have g: "fst (generate_condition demo_dsp demo_dataset (PList [PInt 0, PInt 10]) ''white'' ''out'' None None None
          rerun_world) = Inl (IOError ''out/white_10dB/a.wav'')"
    by (simp add: path_defs io_defs gen_defs demo_defs)
  show ?thesis
    using h n d g condition_folders_stop_at_existing [OF h, of "[PInt 10]"]
    by (simp add: py_print_def log_event_def)
qed

lemma mkdir_each_single:
  "mkdir_each output_dir condition_name [snr] w =
     os_mkdir (os_path_join output_dir [subfolder_name condition_name snr]) w"
  by (simp split: prod.splits sum.splits)

subsection \<open>Output paths\<close>

lemma basename_no_sep: "CHR ''/'' \<notin> set (os_path_basename f)"
proof -
  have "set (takeWhile (\<lambda>c. c \<noteq> CHR ''/'') (rev f)) \<subseteq> {c. c \<noteq> CHR ''/''}"
    by (auto dest: set_takeWhileD)
  then show ?thesis by (auto simp: os_path_basename_def)
qed

lemma join_output_path:
  assumes "output_dir \<noteq> []" and "last output_dir \<noteq> CHR ''/''"
      and "cn = [] \<or> hd cn \<noteq> CHR ''/''"
  shows "os_path_join output_dir [cn @ ''_'' @ s @ ''dB'', os_path_basename f]
           = output_dir @ ''/'' @ cn @ ''_'' @ s @ ''dB'' @ ''/'' @ os_path_basename f"
proof -
  have h: "hd (cn @ ''_'' @ s @ ''dB'') \<noteq> CHR ''/''"
    using assms(3) by (cases cn) auto
  have j1: "join2 output_dir (cn @ ''_'' @ s @ ''dB'') = output_dir @ ''/'' @ cn @ ''_'' @ s @ ''dB''"
    using assms(1,2) h by (simp add: join2_def)
  have b: "os_path_basename f = [] \<or> hd (os_path_basename f) \<noteq> CHR ''/''"
    using basename_no_sep[of f] by (cases "os_path_basename f") auto
  have l: "last (output_dir @ ''/'' @ cn @ ''_'' @ s @ ''dB'') \<noteq> CHR ''/''"
    by simp
  have j2: "join2 (output_dir @ ''/'' @ cn @ ''_'' @ s @ ''dB'') (os_path_basename f)
              = (output_dir @ ''/'' @ cn @ ''_'' @ s @ ''dB'') @ ''/'' @ os_path_basename f"
    using b l unfolding join2_def by auto
  show ?thesis
    unfolding os_path_join_def using j1 j2 by simp
qed

lemma load_condition_name:
  "load_condition self noise_name reverb_name w = (Inr (n, r, cn), w1) \<Longrightarrow>
     cn = (case reverb_name of Some rv \<Rightarrow> rv @ ''_'' @ noise_name | None \<Rightarrow> noise_name)"
  by (auto simp: load_condition_def then_do_def wavread_def Let_def
      split: sum.splits option.splits prod.splits)

lemma FileGenerator_call_written:
  assumes "FileGenerator_call dsp (FileGenerator_init n r snr output_dir cn energy) f w = (Inr (), w2)"
  shows "\<exists>x y fs. wavs w f = Some (x, fs) \<and>
           wavs w2 (os_path_join output_dir [cn @ ''_'' @ py_str snr @ ''dB'', os_path_basename f])
             = Some (y, fs) \<and>
           trace w2 = trace w @ [WavRead f,
             WavWrite (os_path_join output_dir [cn @ ''_'' @ py_str snr @ ''dB'', os_path_basename f]) fs]"
  using assms
  by (auto simp: FileGenerator_call_def FileGenerator_init_def subfolder_name_def then_do_def
      wavread_def wavwrite_def log_event_def Let_def
      split: option.splits sum.splits prod.splits if_splits)

lemma FileGenerator_call_succeeds:
  assumes "wavs w f = Some (x, fs)"
      and "(case r of Some rr \<Rightarrow> add_reverb dsp x rr fs energy | None \<Rightarrow> Inr x) = Inr x'"
      and "add_noise dsp x' n fs snr energy = Inr (y, g)"
      and "fs_key (os_path_join output_dir [cn @ ''_'' @ py_str snr @ ''dB'', os_path_basename f])
             \<notin> dirs w"
      and "parent_exists w (os_path_join output_dir [cn @ ''_'' @ py_str snr @ ''dB'', os_path_basename f])"
  shows "fst (FileGenerator_call dsp (FileGenerator_init n r snr output_dir cn energy) f w) = Inr ()"
  using assms
  by (auto simp: FileGenerator_call_def FileGenerator_init_def subfolder_name_def then_do_def
      wavread_def wavwrite_def log_event_def Let_def parent_exists_def
      split: option.splits sum.splits prod.splits)


lemma pool_tasks_ok:
  "pool_tasks dsp g fs w = (None, w') \<Longrightarrow> run_files dsp g fs w = (Inr (), w')"
proof (induction fs arbitrary: w)
  case Nil
  then show ?case by simp
next
  case (Cons f fs)
  obtain res w1 where c: "FileGenerator_call dsp g f w = (res, w1)"
    by (cases "FileGenerator_call dsp g f w")
  obtain err w2 where t: "pool_tasks dsp g fs w1 = (err, w2)"
    by (cases "pool_tasks dsp g fs w1")
  from Cons.prems c t obtain u where r: "res = Inr u" and e: "err = None" and w: "w2 = w'"
    by (cases res) auto
  from Cons.IH[of w1] t e w have "run_files dsp g fs w1 = (Inr (), w')" by simp
  then show ?case using c r by simp
qed

lemma pool_map_ok:
  "pool_map p dsp g fs w = (Inr (), w') \<Longrightarrow> run_files dsp g fs w = (Inr (), w')"
  by (rule pool_tasks_ok) (auto simp: pool_map_def split: prod.splits option.splits)

subsection \<open>The writes of a call\<close>

lemma written_append: "written (a @ b) = written a @ written b"
  by (induction a rule: written.induct) simp_all

lemma expected_writes_append:
  "expected_writes out m (a @ b)
     = expected_writes out m a @ expected_writes out (rates_after out m a) b"
  by (induction a arbitrary: m) (auto split: option.splits)

lemma rates_after_append:
  "rates_after out m (a @ b) = rates_after out (rates_after out m a) b"
  by (induction a arbitrary: m) (auto split: option.splits)

lemma quiet_refl: "quiet w w"
  by (simp add: quiet_def)

lemma quiet_trans: "quiet w w1 \<Longrightarrow> quiet w1 w2 \<Longrightarrow> quiet w w2"
  by (simp add: quiet_def)

lemma jobs_done_Nil: "quiet w w' \<Longrightarrow> jobs_done out [] w w'"
  by (simp add: quiet_def jobs_done_def)

lemma jobs_done_append:
  "jobs_done out a w w1 \<Longrightarrow> jobs_done out b w1 w2 \<Longrightarrow> jobs_done out (a @ b) w w2"
  by (simp add: jobs_done_def expected_writes_append rates_after_append)

lemma quiet_jobs_done: "quiet w w1 \<Longrightarrow> jobs_done out js w1 w2 \<Longrightarrow> jobs_done out js w w2"
  by (simp add: quiet_def jobs_done_def)

lemma FileGenerator_call_done:
  assumes "FileGenerator_call dsp (FileGenerator_init n r snr out cn e) f w = (Inr (), w2)"
  shows "jobs_done out [(cn, snr, f)] w w2 \<and> draws w2 = draws w"
  using assms
  by (auto simp: FileGenerator_call_def FileGenerator_init_def subfolder_name_def then_do_def
      wavread_def wavwrite_def log_event_def Let_def jobs_done_def rate_map_def out_path_def
      written_append
      split: option.splits sum.splits prod.splits if_splits)

lemma run_files_done:
  "run_files dsp (FileGenerator_init n r snr out cn e) fs w = (Inr (), w') \<Longrightarrow>
     jobs_done out (map (\<lambda>f. (cn, snr, f)) fs) w w' \<and> draws w' = draws w"
proof (induction fs arbitrary: w)
  case Nil
  then show ?case by (simp add: jobs_done_Nil quiet_refl)
next
  case (Cons f fs)
  obtain res w1 where c: "FileGenerator_call dsp (FileGenerator_init n r snr out cn e) f w = (res, w1)"
    by (cases "FileGenerator_call dsp (FileGenerator_init n r snr out cn e) f w")
  from Cons.prems c have r: "res = Inr ()"
    and rest: "run_files dsp (FileGenerator_init n r snr out cn e) fs w1 = (Inr (), w')"
    by (cases res; simp)+
  note a = FileGenerator_call_done[OF c[unfolded r]]
  note b = Cons.IH[OF rest]
  have "jobs_done out ([(cn, snr, f)] @ map (\<lambda>f. (cn, snr, f)) fs) w w'"
    by (rule jobs_done_append[OF a[THEN conjunct1] b[THEN conjunct1]])
  moreover have "draws w' = draws w" using a b by simp
  ultimately show ?case by simp
qed

lemma choose_speech_files_chosen:
  "choose_speech_files self fpc w = (Inr files, w1) \<Longrightarrow>
     files = chosen_files self fpc w 0 \<and> quiet w w1 \<and>
     draws w1 = draws w + (case fpc of None \<Rightarrow> 0 | Some m \<Rightarrow> 1)"
  by (auto simp: choose_speech_files_def np_random_choice_def chosen_files_def quiet_def
      rate_map_def split: option.splits if_splits)

lemma snr_step_done:
  assumes "snr_step dsp self n r out cn fpc pool snr w = (Inr (), w')"
  shows "jobs_done out (map (\<lambda>f. (cn, snr, f)) (chosen_files self fpc w 0)) w w' \<and>
         draws w' = draws w + (case fpc of None \<Rightarrow> 0 | Some m \<Rightarrow> 1)"
proof -
  obtain res w1 where c: "choose_speech_files self fpc w = (res, w1)"
    by (cases "choose_speech_files self fpc w")
  from assms c obtain chosen where r: "res = Inr chosen"
    by (cases res) (auto simp: snr_step_def then_do_def)
  from assms c r have
    "run_files dsp (FileGenerator_init n r snr out cn (speech_energy self)) chosen w1 = (Inr (), w')"
    by (auto simp: snr_step_def then_do_def Let_def split: option.splits dest: pool_map_ok)
  from run_files_done[OF this] choose_speech_files_chosen[OF c[unfolded r]]
  show ?thesis by (auto intro: quiet_jobs_done)
qed

lemma jobs_of_Nil: "jobs_of cn [] files = []"
  by (simp add: jobs_of_def)

lemma jobs_of_Cons:
  "jobs_of cn (snr # snrs) files
     = map (\<lambda>f. (cn, snr, f)) (files 0) @ jobs_of cn snrs (\<lambda>k. files (Suc k))"
  by (simp add: jobs_of_def enumerate_Suc_eq[of 0] o_def case_prod_unfold)

lemma chosen_files_shift:
  "perms w1 = perms w \<Longrightarrow> draws w1 = draws w + (case fpc of None \<Rightarrow> 0 | Some m \<Rightarrow> d) \<Longrightarrow>
     chosen_files self fpc w1 = (\<lambda>k. chosen_files self fpc w (d + k))"
  by (auto simp: chosen_files_def add.assoc split: option.splits)

lemma snr_loop_done:
  "snr_loop dsp self n r out cn fpc pool snrs w = (Inr (), w') \<Longrightarrow>
     jobs_done out (jobs_of cn snrs (chosen_files self fpc w)) w w' \<and>
     draws w' = draws w + (case fpc of None \<Rightarrow> 0 | Some m \<Rightarrow> length snrs)"
proof (induction snrs arbitrary: w)
  case Nil
  then show ?case by (simp add: jobs_of_Nil jobs_done_Nil quiet_refl split: option.splits)
next
  case (Cons snr snrs)
  obtain res w1 where c: "snr_step dsp self n r out cn fpc pool snr w = (res, w1)"
    by (cases "snr_step dsp self n r out cn fpc pool snr w")
  from Cons.prems c have r: "res = Inr ()"
    and rest: "snr_loop dsp self n r out cn fpc pool snrs w1 = (Inr (), w')"
    by (cases res; simp)+
  note s = snr_step_done[OF c[unfolded r]]
  note i = Cons.IH[OF rest]
  from s have p: "perms w1 = perms w" by (simp add: jobs_done_def)
  have sh: "chosen_files self fpc w1 = (\<lambda>k. chosen_files self fpc w (Suc k))"
    using chosen_files_shift[OF p, where fpc = fpc and d = 1 and self = self] s by simp
  have "jobs_done out (map (\<lambda>f. (cn, snr, f)) (chosen_files self fpc w 0)
          @ jobs_of cn snrs (\<lambda>k. chosen_files self fpc w (Suc k))) w w'"
    by (rule jobs_done_append[OF s[THEN conjunct1] i[THEN conjunct1, unfolded sh]])
  moreover have "draws w' = draws w + (case fpc of None \<Rightarrow> 0 | Some m \<Rightarrow> length (snr # snrs))"
    using s i by (simp split: option.splits)
  ultimately show ?case by (simp add: jobs_of_Cons)
qed

lemma wavread_quiet: "wavread p w = (res, w1) \<Longrightarrow> quiet w w1 \<and> draws w1 = draws w"
  by (auto simp: wavread_def log_event_def quiet_def rate_map_def written_append Let_def
      split: option.splits)

lemma load_condition_quiet:
  "load_condition self noise_name reverb_name w = (res, w1) \<Longrightarrow> quiet w w1 \<and> draws w1 = draws w"
  by (auto simp: load_condition_def then_do_def wavread_def log_event_def quiet_def rate_map_def
      written_append Let_def split: sum.splits option.splits prod.splits)

lemma os_mkdir_quiet: "os_mkdir p w = (res, w1) \<Longrightarrow> quiet w w1 \<and> draws w1 = draws w"
  by (auto simp: os_mkdir_def log_event_def quiet_def rate_map_def written_append Let_def
      split: if_splits)

lemma mkdir_each_quiet:
  "mkdir_each out cn snrs w = (res, w1) \<Longrightarrow> quiet w w1 \<and> draws w1 = draws w"
proof (induction snrs arbitrary: w)
  case Nil
  then show ?case by (simp add: quiet_refl)
next
  case (Cons snr snrs)
  obtain r0 w0 where m: "os_mkdir (os_path_join out [subfolder_name cn snr]) w = (r0, w0)"
    by (cases "os_mkdir (os_path_join out [subfolder_name cn snr]) w")
  note q = os_mkdir_quiet[OF m]
  show ?case
  proof (cases r0)
    case (Inl e)
    with Cons.prems m q show ?thesis by simp
  next
    case (Inr u)
    with Cons.prems m have "mkdir_each out cn snrs w0 = (res, w1)" by simp
    from Cons.IH[OF this] q show ?thesis by (auto intro: quiet_trans)
  qed
qed

lemma make_condition_folders_quiet:
  assumes "make_condition_folders out cn snrs w = (res, w1)"
  shows "quiet w w1 \<and> draws w1 = draws w"
proof -
  obtain r0 w0 where m: "mkdir_each out cn snrs w = (r0, w0)"
    by (cases "mkdir_each out cn snrs w")
  have p: "quiet w0 (py_print s w0) \<and> draws (py_print s w0) = draws w0" for s
    by (simp add: py_print_def log_event_def quiet_def rate_map_def written_append)
  from assms m have "w1 = w0 \<or> w1 = py_print ''Condition folder already exists!'' w0"
    by (auto simp: make_condition_folders_def split: sum.splits error.splits)
  with mkdir_each_quiet[OF m] p show ?thesis by (auto intro: quiet_trans)
qed

lemma generate_condition_done:
  assumes "generate_condition dsp self snrs noise_name out reverb_name fpc pool w = (Inr (), w')"
  shows "jobs_done out
           (jobs_of (case reverb_name of Some rv \<Rightarrow> rv @ ''_'' @ noise_name | None \<Rightarrow> noise_name)
              (coerce_snrs snrs) (chosen_files self fpc w)) w w' \<and>
         draws w' = draws w + (case fpc of None \<Rightarrow> 0 | Some m \<Rightarrow> length (coerce_snrs snrs))"
proof -
  from assms have k: "noise_name \<in> set (dict_keys (noise self))"
    by (auto simp: generate_condition_def split: if_splits)
  obtain r1 w1 where l: "load_condition self noise_name reverb_name w = (r1, w1)"
    by (cases "load_condition self noise_name reverb_name w")
  from assms k l obtain n r cn where r1: "r1 = Inr (n, r, cn)"
    by (cases r1) (auto simp: generate_condition_def then_do_def Let_def)
  note l' = l[unfolded r1]
  have cn: "cn = (case reverb_name of Some rv \<Rightarrow> rv @ ''_'' @ noise_name | None \<Rightarrow> noise_name)"
    using l' by (rule load_condition_name)
  obtain r2 w2 where m: "(if \<not> os_path_isdir w1 out then os_mkdir out w1 else (Inr (), w1)) = (r2, w2)"
    by (cases "if \<not> os_path_isdir w1 out then os_mkdir out w1 else (Inr (), w1)")
  have q2: "quiet w1 w2 \<and> draws w2 = draws w1"
    using m os_mkdir_quiet[of out w1 r2 w2] by (auto simp: quiet_refl split: if_splits)
  from assms k l' m have r2: "r2 = Inr ()"
    by (cases r2) (auto simp: generate_condition_def then_do_def Let_def)
  obtain r3 w3 where f: "make_condition_folders out cn (coerce_snrs snrs) w2 = (r3, w3)"
    by (cases "make_condition_folders out cn (coerce_snrs snrs) w2")
  from assms k l' m r2 f have r3: "r3 = Inr ()"
    by (cases r3) (auto simp: generate_condition_def then_do_def Let_def)
  from assms k l' m r2 f r3 have
    s: "snr_loop dsp self n r out cn fpc pool (coerce_snrs snrs) w3 = (Inr (), w')"
    by (auto simp: generate_condition_def then_do_def Let_def)
  note q1 = load_condition_quiet[OF l]
  note q3 = make_condition_folders_quiet[OF f]
  have q: "quiet w w3" using q1 q2 q3 by (auto intro: quiet_trans)
  have d: "draws w3 = draws w" using q1 q2 q3 by simp
  have p: "perms w3 = perms w" using q by (simp add: quiet_def)
  have sh: "chosen_files self fpc w3 = chosen_files self fpc w"
    by (rule ext) (simp add: chosen_files_def p d split: option.splits)
  from snr_loop_done[OF s] q d show ?thesis
    unfolding sh cn by (auto intro: quiet_jobs_done)
qed

lemma dataset_jobs_Nil: "dataset_jobs [] snrs files = []"
  by (simp add: dataset_jobs_def)

lemma dataset_jobs_Cons:
  "dataset_jobs ((rv, nz) # conditions) snrs files
     = jobs_of (rv @ ''_'' @ nz) snrs files
         @ dataset_jobs conditions snrs (\<lambda>k. files (length snrs + k))"
  by (simp add: dataset_jobs_def enumerate_Suc_eq[of 0] o_def case_prod_unfold add.assoc)

lemma condition_loop_done:
  "condition_loop dsp self (PList snrs) out fpc pool conditions w = (Inr (), w') \<Longrightarrow>
     jobs_done out (dataset_jobs conditions snrs (chosen_files self fpc w)) w w'"
proof (induction conditions arbitrary: w)
  case Nil
  then show ?case by (simp add: dataset_jobs_Nil jobs_done_Nil quiet_refl)
next
  case (Cons c conditions)
  obtain rv nz where c: "c = (rv, nz)" by (cases c)
  obtain res w1 where g:
    "generate_condition dsp self (PList snrs) nz out (Some rv) fpc (Some pool) w = (res, w1)"
    by (cases "generate_condition dsp self (PList snrs) nz out (Some rv) fpc (Some pool) w")
  from Cons.prems c g have r: "res = Inr ()"
    and rest: "condition_loop dsp self (PList snrs) out fpc pool conditions w1 = (Inr (), w')"
    by (cases res; simp)+
  have cs: "coerce_snrs (PList snrs) = snrs" by (simp add: coerce_snrs_def)
  have s: "jobs_done out (jobs_of (rv @ ''_'' @ nz) snrs (chosen_files self fpc w)) w w1 \<and>
           draws w1 = draws w + (case fpc of None \<Rightarrow> 0 | Some m \<Rightarrow> length snrs)"
    using generate_condition_done[OF g[unfolded r]] by (simp add: cs split: option.splits)
  note i = Cons.IH[OF rest]
  from s have p: "perms w1 = perms w" by (simp add: jobs_done_def)
  have sh: "chosen_files self fpc w1 = (\<lambda>k. chosen_files self fpc w (length snrs + k))"
    using chosen_files_shift[OF p, where fpc = fpc and d = "length snrs" and self = self] s
    by simp
  have "jobs_done out (jobs_of (rv @ ''_'' @ nz) snrs (chosen_files self fpc w)
          @ dataset_jobs conditions snrs (\<lambda>k. chosen_files self fpc w (length snrs + k))) w w'"
    by (rule jobs_done_append[OF s[THEN conjunct1] i[unfolded sh]])
  then show ?case by (simp add: c dataset_jobs_Cons)
qed

lemma generate_dataset_done:
  assumes "generate_dataset dsp self snrs out fpc n_workers w = (Inr (), w')"
  shows "jobs_done out
           (dataset_jobs (dataset_conditions self) (coerce_snrs snrs) (chosen_files self fpc w)) w w'"
proof -
  from assms obtain pool where
    "condition_loop dsp self (PList (coerce_snrs snrs)) out fpc pool (dataset_conditions self) w
       = (Inr (), w')"
    by (auto simp: generate_dataset_def Let_def split: sum.splits)
  then show ?thesis by (rule condition_loop_done)
qed

lemma expected_writes_length: "length (expected_writes out m jobs) \<le> length jobs"
proof (induction jobs arbitrary: m)
  case Nil
  then show ?case by simp
next
  case (Cons j jobs)
  obtain cn snr f where j: "j = (cn, snr, f)" by (cases j)
  show ?case
  proof (cases "m f")
    case None
    then show ?thesis using Cons.IH[of m] by (simp add: j)
  next
    case (Some fs)
    have "length (expected_writes out (m(out_path out cn snr f \<mapsto> fs)) jobs) \<le> length jobs"
      by (rule Cons.IH)
    then show ?thesis using Some by (simp add: j)
  qed
qed

lemma expected_writes_rates:
  "\<forall>j\<in>set jobs. m1 (snd (snd j)) = m (snd (snd j)) \<Longrightarrow>
   set (map (\<lambda>(cn, snr, f). out_path out cn snr f) jobs) \<inter> set (map (\<lambda>(cn, snr, f). f) jobs) = {} \<Longrightarrow>
   map fst (expected_writes out m1 jobs) = map (\<lambda>(cn, snr, f). out_path out cn snr f) jobs \<Longrightarrow>
   list_all2 (\<lambda>(p, fs) (cn, snr, f). p = out_path out cn snr f \<and> m f = Some fs)
     (expected_writes out m1 jobs) jobs"
proof (induction jobs arbitrary: m1)
  case Nil
  then show ?case by simp
next
  case (Cons j jobs)
  obtain cn snr f where j: "j = (cn, snr, f)" by (cases j)
  have "m1 f \<noteq> None"
  proof
    assume n: "m1 f = None"
    from Cons.prems(3) have "length (expected_writes out m1 (j # jobs)) = length (j # jobs)"
      by (metis length_map)
    with n expected_writes_length[of out m1 jobs] show False by (simp add: j)
  qed
  then obtain fs where fs: "m1 f = Some fs" by auto
  have mf: "m f = Some fs" using Cons.prems(1) fs by (simp add: j)
  let ?m2 = "m1(out_path out cn snr f \<mapsto> fs)"
  have op: "out_path out cn snr f \<notin> (\<lambda>(cn, snr, f). f) ` set jobs"
    using Cons.prems(2) by (auto simp: j)
  have np: "\<forall>j'\<in>set jobs. snd (snd j') \<noteq> out_path out cn snr f"
  proof
    fix j'
    assume i: "j' \<in> set jobs"
    obtain a b c where j': "j' = (a, b, c)" by (cases j')
    from i have "(\<lambda>(cn, snr, f). f) j' \<in> (\<lambda>(cn, snr, f). f) ` set jobs" by (rule imageI)
    then have "c \<in> (\<lambda>(cn, snr, f). f) ` set jobs" by (simp add: j')
    with op have "c \<noteq> out_path out cn snr f" by blast
    then show "snd (snd j') \<noteq> out_path out cn snr f" by (simp add: j')
  qed
  have a: "\<forall>j'\<in>set jobs. ?m2 (snd (snd j')) = m (snd (snd j'))"
    using Cons.prems(1) np by simp
  have b: "set (map (\<lambda>(cn, snr, f). out_path out cn snr f) jobs)
             \<inter> set (map (\<lambda>(cn, snr, f). f) jobs) = {}"
    using Cons.prems(2) by auto
  have c: "map fst (expected_writes out ?m2 jobs) = map (\<lambda>(cn, snr, f). out_path out cn snr f) jobs"
    using Cons.prems(3) by (simp add: j fs)
  have ih: "list_all2 (\<lambda>(p, fs) (cn, snr, f). p = out_path out cn snr f \<and> m f = Some fs)
              (expected_writes out ?m2 jobs) jobs"
    by (rule Cons.IH[OF a b c])
  have ew: "expected_writes out m1 ((cn, snr, f) # jobs)
              = (out_path out cn snr f, fs) # expected_writes out ?m2 jobs"
    by (simp add: fs)
  have h: "(\<lambda>(p, fs) (cn, snr, f). p = out_path out cn snr f \<and> m f = Some fs)
             (out_path out cn snr f, fs) (cn, snr, f)"
    by (simp add: mf)
  show ?case unfolding j ew list_all2_Cons by (rule conjI[OF h ih])
qed

lemma generate_condition_plain:
  assumes "generate_condition dsp self snrs noise_name out reverb_name fpc pool w = (Inr (), w')"
      and "jobs = jobs_of (case reverb_name of Some rv \<Rightarrow> rv @ ''_'' @ noise_name | None \<Rightarrow> noise_name)
                    (coerce_snrs snrs) (chosen_files self fpc w)"
      and "set (map (\<lambda>(cn, snr, f). out_path out cn snr f) jobs) \<inter> set (map (\<lambda>(cn, snr, f). f) jobs) = {}"
  shows "\<exists>ws. written (trace w') = written (trace w) @ ws \<and>
           list_all2 (\<lambda>(p, fs) (cn, snr, f). p = out_path out cn snr f \<and> rate_map w f = Some fs) ws jobs"
proof -
  from generate_condition_done[OF assms(1)] have d: "jobs_done out jobs w w'"
    unfolding assms(2) by simp
  then have p: "map fst (expected_writes out (rate_map w) jobs)
                  = map (\<lambda>(cn, snr, f). out_path out cn snr f) jobs"
    by (simp add: jobs_done_def)
  have "list_all2 (\<lambda>(p, fs) (cn, snr, f). p = out_path out cn snr f \<and> rate_map w f = Some fs)
          (expected_writes out (rate_map w) jobs) jobs"
    by (rule expected_writes_rates[OF _ assms(3) p]) simp
  with d show ?thesis by (auto simp: jobs_done_def)
qed

text \<open>
  The claim C6 as the spec states it fails for a condition name that starts with a
  separator: \<^verbatim>\<open>os.path.join\<close> drops what precedes an absolute component. With the noise
  registered under the name \<^verbatim>\<open>/tmp/x\<close> and the output directory \<^verbatim>\<open>out\<close>, the call returns
  normally and has written its files into \<^verbatim>\<open>/tmp/x_0dB\<close>, outside the output directory;
  nothing is at \<^verbatim>\<open>out//tmp/x_0dB/a.wav\<close>.
\<close>

theorem output_path_counterexample:
  "fst (generate_condition demo_dsp absolute_name_dataset (PList [PInt 0]) ''/tmp/x'' ''out'' None
          None None tmp_world) = Inr () \<and>
   written (trace (snd (generate_condition demo_dsp absolute_name_dataset (PList [PInt 0]) ''/tmp/x''
                          ''out'' None None None tmp_world)))
     = [(''/tmp/x_0dB/a.wav'', 16000), (''/tmp/x_0dB/b.WAV'', 8000)] \<and>
   ''out'' @ ''/'' @ ''/tmp/x'' @ ''_'' @ py_str (PInt 0) @ ''dB'' @ ''/''
       @ os_path_basename ''speech/a.wav'' = ''out//tmp/x_0dB/a.wav'' \<and>
   wavs (snd (generate_condition demo_dsp absolute_name_dataset (PList [PInt 0]) ''/tmp/x''
                ''out'' None None None tmp_world)) ''out//tmp/x_0dB/a.wav'' = None \<and>
   wavs (snd (generate_condition demo_dsp absolute_name_dataset (PList [PInt 0]) ''/tmp/x''
                ''out'' None None None tmp_world)) ''/tmp/x_0dB/a.wav'' = Some ([1, 2, 7], 16000)"
  by (simp add: path_defs io_defs gen_defs demo_defs job_defs)

text \<open>
  C6, amended. The condition name is \<^verbatim>\<open>reverb_noise\<close> when a reverb name is given and \<^verbatim>\<open>noise\<close>
  otherwise. A call of \<^verbatim>\<open>generate_condition\<close> that returns has written, in order, one file
  per SNR and speech file chosen for it, none skipped and no other file, at
  \<^verbatim>\<open>os.path.join(output_dir, condition_name + '_' + str(snr) + 'dB', basename(f))\<close> and at the
  sample rate the speech file \<open>f\<close> had when it was read, and these are the rates the files
  have after the call; when no output path is one of the speech files, the rate written
  is the rate \<open>f\<close> has when the call starts. Likewise a call of the
  file generator that succeeds on \<open>f\<close> has read \<open>f\<close> at some rate \<open>fs\<close> and has written
  that path at the rate \<open>fs\<close>; it succeeds when \<open>f\<close> is readable, the signal processing
  succeeds and the folder exists. For an output directory that is not empty and does not
  end in a separator and a condition name that does not start with one, the path is
  \<^verbatim>\<open>output_dir/condition_name_<snr>dB/basename(f)\<close> letter for letter.
\<close>

theorem output_path_and_rate:
  "(load_condition self noise_name reverb_name w = (Inr (n, r, cn), w1) \<longrightarrow>
      cn = (case reverb_name of Some rv \<Rightarrow> rv @ ''_'' @ noise_name | None \<Rightarrow> noise_name)) \<and>
   (generate_condition dsp self snrs noise_name output_dir reverb_name files_per_condition pool w
      = (Inr (), w') \<and>
    jobs = jobs_of (case reverb_name of Some rv \<Rightarrow> rv @ ''_'' @ noise_name | None \<Rightarrow> noise_name)
             (coerce_snrs snrs) (chosen_files self files_per_condition w) \<longrightarrow>
      written (trace w') = written (trace w) @ expected_writes output_dir (rate_map w) jobs \<and>
      map fst (expected_writes output_dir (rate_map w) jobs)
        = map (\<lambda>(cn, snr, f). out_path output_dir cn snr f) jobs \<and>
      rate_map w' = rates_after output_dir (rate_map w) jobs \<and>
      (set (map (\<lambda>(cn, snr, f). out_path output_dir cn snr f) jobs)
         \<inter> set (map (\<lambda>(cn, snr, f). f) jobs) = {} \<longrightarrow>
         (\<exists>ws. written (trace w') = written (trace w) @ ws \<and>
            list_all2 (\<lambda>(p, fs) (cn, snr, f). p = out_path output_dir cn snr f \<and> rate_map w f = Some fs)
              ws jobs))) \<and>
   (FileGenerator_call dsp (FileGenerator_init n r snr output_dir cn energy) f w = (Inr (), w2) \<longrightarrow>
      (\<exists>x y fs. wavs w f = Some (x, fs) \<and>
         wavs w2 (out_path output_dir cn snr f) = Some (y, fs) \<and>
         trace w2 = trace w @ [WavRead f, WavWrite (out_path output_dir cn snr f) fs])) \<and>
   (wavs w f = Some (x, fs) \<and>
    (case r of Some rr \<Rightarrow> add_reverb dsp x rr fs energy | None \<Rightarrow> Inr x) = Inr x' \<and>
    add_noise dsp x' n fs snr energy = Inr (y, g) \<and>
    fs_key (out_path output_dir cn snr f) \<notin> dirs w \<and>
    parent_exists w (out_path output_dir cn snr f)
    \<longrightarrow> fst (FileGenerator_call dsp (FileGenerator_init n r snr output_dir cn energy) f w) = Inr ()) \<and>
   out_path output_dir cn snr f
     = os_path_join output_dir [cn @ ''_'' @ py_str snr @ ''dB'', os_path_basename f] \<and>
   (output_dir \<noteq> [] \<and> last output_dir \<noteq> CHR ''/'' \<and> (cn = [] \<or> hd cn \<noteq> CHR ''/'') \<longrightarrow>
      out_path output_dir cn snr f
        = output_dir @ ''/'' @ cn @ ''_'' @ py_str snr @ ''dB'' @ ''/'' @ os_path_basename f)"
proof -
  have a: "load_condition self noise_name reverb_name w = (Inr (n, r, cn), w1) \<longrightarrow>
      cn = (case reverb_name of Some rv \<Rightarrow> rv @ ''_'' @ noise_name | None \<Rightarrow> noise_name)"
    using load_condition_name by (rule impI)
  have b: "generate_condition dsp self snrs noise_name output_dir reverb_name files_per_condition pool w
      = (Inr (), w') \<and>
    jobs = jobs_of (case reverb_name of Some rv \<Rightarrow> rv @ ''_'' @ noise_name | None \<Rightarrow> noise_name)
             (coerce_snrs snrs) (chosen_files self files_per_condition w) \<longrightarrow>
      written (trace w') = written (trace w) @ expected_writes output_dir (rate_map w) jobs \<and>
      map fst (expected_writes output_dir (rate_map w) jobs)
        = map (\<lambda>(cn, snr, f). out_path output_dir cn snr f) jobs \<and>
      rate_map w' = rates_after output_dir (rate_map w) jobs \<and>
      (set (map (\<lambda>(cn, snr, f). out_path output_dir cn snr f) jobs)
         \<inter> set (map (\<lambda>(cn, snr, f). f) jobs) = {} \<longrightarrow>
         (\<exists>ws. written (trace w') = written (trace w) @ ws \<and>
            list_all2 (\<lambda>(p, fs) (cn, snr, f). p = out_path output_dir cn snr f \<and> rate_map w f = Some fs)
              ws jobs))"
  proof (intro impI, elim conjE)
    assume g: "generate_condition dsp self snrs noise_name output_dir reverb_name
                 files_per_condition pool w = (Inr (), w')"
      and j: "jobs = jobs_of (case reverb_name of Some rv \<Rightarrow> rv @ ''_'' @ noise_name | None \<Rightarrow> noise_name)
             (coerce_snrs snrs) (chosen_files self files_per_condition w)"
    from generate_condition_done[OF g] have d: "jobs_done output_dir jobs w w'"
      unfolding j by simp
    have b1: "written (trace w') = written (trace w) @ expected_writes output_dir (rate_map w) jobs"
      using d by (simp add: jobs_done_def)
    have b2: "map fst (expected_writes output_dir (rate_map w) jobs)
        = map (\<lambda>(cn, snr, f). out_path output_dir cn snr f) jobs"
      using d by (simp add: jobs_done_def)
    have b4: "rate_map w' = rates_after output_dir (rate_map w) jobs"
      using d by (simp add: jobs_done_def)
    have b3: "set (map (\<lambda>(cn, snr, f). out_path output_dir cn snr f) jobs)
         \<inter> set (map (\<lambda>(cn, snr, f). f) jobs) = {} \<longrightarrow>
         (\<exists>ws. written (trace w') = written (trace w) @ ws \<and>
            list_all2 (\<lambda>(p, fs) (cn, snr, f). p = out_path output_dir cn snr f \<and> rate_map w f = Some fs)
              ws jobs)"
      using generate_condition_plain[OF g j] by (rule impI)
    show "written (trace w') = written (trace w) @ expected_writes output_dir (rate_map w) jobs \<and>
      map fst (expected_writes output_dir (rate_map w) jobs)
        = map (\<lambda>(cn, snr, f). out_path output_dir cn snr f) jobs \<and>
      rate_map w' = rates_after output_dir (rate_map w) jobs \<and>
      (set (map (\<lambda>(cn, snr, f). out_path output_dir cn snr f) jobs)
         \<inter> set (map (\<lambda>(cn, snr, f). f) jobs) = {} \<longrightarrow>
         (\<exists>ws. written (trace w') = written (trace w) @ ws \<and>
            list_all2 (\<lambda>(p, fs) (cn, snr, f). p = out_path output_dir cn snr f \<and> rate_map w f = Some fs)
              ws jobs))"
      by (rule conjI[OF b1 conjI[OF b2 conjI[OF b4 b3]]])
  qed
  have c: "FileGenerator_call dsp (FileGenerator_init n r snr output_dir cn energy) f w = (Inr (), w2) \<longrightarrow>
      (\<exists>x y fs. wavs w f = Some (x, fs) \<and>
         wavs w2 (out_path output_dir cn snr f) = Some (y, fs) \<and>
         trace w2 = trace w @ [WavRead f, WavWrite (out_path output_dir cn snr f) fs])"
    unfolding out_path_def using FileGenerator_call_written by (rule impI)
  have d: "wavs w f = Some (x, fs) \<and>
    (case r of Some rr \<Rightarrow> add_reverb dsp x rr fs energy | None \<Rightarrow> Inr x) = Inr x' \<and>
    add_noise dsp x' n fs snr energy = Inr (y, g) \<and>
    fs_key (out_path output_dir cn snr f) \<notin> dirs w \<and>
    parent_exists w (out_path output_dir cn snr f)
    \<longrightarrow> fst (FileGenerator_call dsp (FileGenerator_init n r snr output_dir cn energy) f w) = Inr ()"
    unfolding out_path_def
    by (intro impI, elim conjE, rule FileGenerator_call_succeeds; assumption)
  have o: "out_path output_dir cn snr f
     = os_path_join output_dir [cn @ ''_'' @ py_str snr @ ''dB'', os_path_basename f]"
    by (simp add: out_path_def)
  have e: "output_dir \<noteq> [] \<and> last output_dir \<noteq> CHR ''/'' \<and> (cn = [] \<or> hd cn \<noteq> CHR ''/'') \<longrightarrow>
      out_path output_dir cn snr f
        = output_dir @ ''/'' @ cn @ ''_'' @ py_str snr @ ''dB'' @ ''/'' @ os_path_basename f"
    unfolding out_path_def
    by (intro impI, elim conjE, rule join_output_path; assumption)
  show ?thesis by (rule conjI[OF a conjI[OF b conjI[OF c conjI[OF d conjI[OF o e]]]]])
qed

text \<open>
  Noise \<^verbatim>\<open>white\<close> and the SNRs 0 and 10: the two speech files go to \<^verbatim>\<open>out/white_0dB\<close> and then
  to \<^verbatim>\<open>out/white_10dB\<close>, \<^verbatim>\<open>speech/b.WAV\<close>, read at 8000 Hz, written at 8000 Hz. With the reverb
  \<^verbatim>\<open>room1\<close>, the SNR 5 and a pool of two workers they go to \<^verbatim>\<open>out/room1_white_5dB\<close>.
\<close>

theorem output_path_and_rate_witness:
  "fst (load_condition demo_dataset ''white'' (Some ''room1'') demo_world)
     = Inr ([7], Some [5], ''room1_white'') \<and>
   fst (load_condition demo_dataset ''white'' None demo_world) = Inr ([7], None, ''white'') \<and>
   fst (generate_condition demo_dsp demo_dataset (PList [PInt 0, PInt 10]) ''white'' ''out'' None None
          None demo_world) = Inr () \<and>
   jobs_of ''white'' (coerce_snrs (PList [PInt 0, PInt 10])) (chosen_files demo_dataset None demo_world)
     = [(''white'', PInt 0, ''speech/a.wav''), (''white'', PInt 0, ''speech/b.WAV''),
        (''white'', PInt 10, ''speech/a.wav''), (''white'', PInt 10, ''speech/b.WAV'')] \<and>
   written (trace (snd (generate_condition demo_dsp demo_dataset (PList [PInt 0, PInt 10]) ''white''
                          ''out'' None None None demo_world)))
     = [(''out/white_0dB/a.wav'', 16000), (''out/white_0dB/b.WAV'', 8000),
        (''out/white_10dB/a.wav'', 16000), (''out/white_10dB/b.WAV'', 8000)] \<and>
   rate_map (snd (generate_condition demo_dsp demo_dataset (PList [PInt 0, PInt 10]) ''white''
                    ''out'' None None None demo_world)) ''out/white_10dB/b.WAV'' = Some 8000 \<and>
   set (map (\<lambda>(cn, snr, f). out_path ''out'' cn snr f)
          [(''white'', PInt 0, ''speech/a.wav''), (''white'', PInt 0, ''speech/b.WAV''),
           (''white'', PInt 10, ''speech/a.wav''), (''white'', PInt 10, ''speech/b.WAV'')])
     \<inter> set (map (\<lambda>(cn, snr, f). f)
          [(''white'', PInt 0, ''speech/a.wav''), (''white'', PInt 0, ''speech/b.WAV''),
           (''white'', PInt 10, ''speech/a.wav''), (''white'', PInt 10, ''speech/b.WAV'')]) = {} \<and>
   rate_map demo_world ''speech/a.wav'' = Some 16000 \<and>
   rate_map demo_world ''speech/b.WAV'' = Some 8000 \<and>
   written (trace (snd (generate_condition demo_dsp demo_dataset (PList [PInt 5]) ''white'' ''out''
                          (Some ''room1'') None (Some (Pool 2)) demo_world)))
     = [(''out/room1_white_5dB/a.wav'', 16000), (''out/room1_white_5dB/b.WAV'', 8000)] \<and>
   wavs rerun_world ''speech/b.WAV'' = Some ([3], 8000) \<and>
   fst (FileGenerator_call demo_dsp (FileGenerator_init [7] None (PInt 0) ''out'' ''white'' ''P.56'')
          ''speech/b.WAV'' rerun_world) = Inr () \<and>
   out_path ''out'' ''white'' (PInt 0) ''speech/b.WAV'' = ''out/white_0dB/b.WAV'' \<and>
   wavs (snd (FileGenerator_call demo_dsp
                (FileGenerator_init [7] None (PInt 0) ''out'' ''white'' ''P.56'') ''speech/b.WAV''
                rerun_world)) ''out/white_0dB/b.WAV'' = Some ([3, 7], 8000)"
proof -
  let ?gc = "generate_condition demo_dsp demo_dataset (PList [PInt 0, PInt 10]) ''white'' ''out''
               None None None demo_world"
  let ?jobs = "[(''white'', PInt 0, ''speech/a.wav''), (''white'', PInt 0, ''speech/b.WAV''),
                (''white'', PInt 10, ''speech/a.wav''), (''white'', PInt 10, ''speech/b.WAV'')]"
  let ?fg = "FileGenerator_call demo_dsp
               (FileGenerator_init [7] None (PInt 0) ''out'' ''white'' ''P.56'') ''speech/b.WAV''
               rerun_world"
  have c1: "fst (load_condition demo_dataset ''white'' (Some ''room1'') demo_world)
     = Inr ([7], Some [5], ''room1_white'')"
    by (simp add: io_defs gen_defs demo_defs)
  have c2: "fst (load_condition demo_dataset ''white'' None demo_world) = Inr ([7], None, ''white'')"
    by (simp add: io_defs gen_defs demo_defs)
  have ok: "fst ?gc = Inr ()"
    by (simp add: path_defs io_defs gen_defs demo_defs)
  have e: "?gc = (Inr (), snd ?gc)"
    using ok by (metis prod.collapse)
  have j: "jobs_of ''white'' (coerce_snrs (PList [PInt 0, PInt 10]))
             (chosen_files demo_dataset None demo_world) = ?jobs"
    by (simp add: jobs_of_def coerce_snrs_def chosen_files_def demo_dataset_def enumerate_eq_zip
        upt_rec)
  have j': "?jobs = jobs_of (case None of Some rv \<Rightarrow> rv @ ''_'' @ ''white'' | None \<Rightarrow> ''white'')
             (coerce_snrs (PList [PInt 0, PInt 10])) (chosen_files demo_dataset None demo_world)"
    using j by simp
  note u = output_path_and_rate
    [where self = demo_dataset and noise_name = "''white''" and reverb_name = None
       and snrs = "PList [PInt 0, PInt 10]" and files_per_condition = None and pool = None
       and w = demo_world and output_dir = "''out''" and dsp = demo_dsp and w' = "snd ?gc"
       and jobs = ?jobs]
  note r = mp[OF u[THEN conjunct2, THEN conjunct1] conjI[OF e j']]
  have ew: "written (trace demo_world) @ expected_writes ''out'' (rate_map demo_world) ?jobs
      = [(''out/white_0dB/a.wav'', 16000), (''out/white_0dB/b.WAV'', 8000),
         (''out/white_10dB/a.wav'', 16000), (''out/white_10dB/b.WAV'', 8000)]"
    by (simp add: out_path_def rate_map_def path_defs demo_defs str_int_def str_nat.simps)
  have c3: "written (trace (snd ?gc))
     = [(''out/white_0dB/a.wav'', 16000), (''out/white_0dB/b.WAV'', 8000),
        (''out/white_10dB/a.wav'', 16000), (''out/white_10dB/b.WAV'', 8000)]"
    by (rule trans[OF r[THEN conjunct1] ew])
  have c4: "rate_map (snd ?gc) ''out/white_10dB/b.WAV'' = Some 8000"
    by (simp add: rate_map_def path_defs io_defs gen_defs demo_defs)
  have dj: "set (map (\<lambda>(cn, snr, f). out_path ''out'' cn snr f) ?jobs)
     \<inter> set (map (\<lambda>(cn, snr, f). f) ?jobs) = {}"
    by (simp add: out_path_def path_defs str_int_def str_nat.simps)
  have ra: "rate_map demo_world ''speech/a.wav'' = Some 16000"
    by (simp add: rate_map_def demo_defs)
  have rb: "rate_map demo_world ''speech/b.WAV'' = Some 8000"
    by (simp add: rate_map_def demo_defs)
  have pl: "written (trace (snd (generate_condition demo_dsp demo_dataset (PList [PInt 5]) ''white''
                          ''out'' (Some ''room1'') None (Some (Pool 2)) demo_world)))
     = [(''out/room1_white_5dB/a.wav'', 16000), (''out/room1_white_5dB/b.WAV'', 8000)]"
    by (simp add: path_defs io_defs gen_defs demo_defs)
  have rr: "wavs rerun_world ''speech/b.WAV'' = Some ([3], 8000)"
    by (simp add: demo_defs)
  have p: "''out'' \<noteq> [] \<and> last ''out'' \<noteq> CHR ''/'' \<and> (''white'' = [] \<or> hd ''white'' \<noteq> CHR ''/'')"
    by simp
  have bn: "os_path_basename ''speech/b.WAV'' = ''b.WAV''" by (simp add: os_path_basename_def)
  note v = output_path_and_rate
    [where w = rerun_world and n = "[7]" and r = None and cn = "''white''" and snr = "PInt 0"
       and output_dir = "''out''" and dsp = demo_dsp and energy = "''P.56''"
       and f = "''speech/b.WAV''" and x = "[3]" and fs = 8000 and x' = "[3]" and y = "[3, 7]"
       and g = 1 and ?w2.0 = "snd ?fg"]
  note v4 = v[THEN conjunct2, THEN conjunct2, THEN conjunct2, THEN conjunct1]
  note v6 = v[THEN conjunct2, THEN conjunct2, THEN conjunct2, THEN conjunct2, THEN conjunct2]
  have j0: "out_path ''out'' ''white'' (PInt 0) ''speech/b.WAV''
     = ''out'' @ ''/'' @ ''white'' @ ''_'' @ py_str (PInt 0) @ ''dB'' @ ''/''
         @ os_path_basename ''speech/b.WAV''"
    by (rule mp[OF v6 p])
  have op: "out_path ''out'' ''white'' (PInt 0) ''speech/b.WAV'' = ''out/white_0dB/b.WAV''"
    unfolding j0 by (simp add: str_int_def str_nat.simps bn)
  have hyp: "wavs rerun_world ''speech/b.WAV'' = Some ([3], 8000) \<and>
    (case None of Some rr \<Rightarrow> add_reverb demo_dsp [3] rr 8000 ''P.56'' | None \<Rightarrow> Inr [3]) = Inr [3] \<and>
    add_noise demo_dsp [3] [7] 8000 (PInt 0) ''P.56'' = Inr ([3, 7], 1) \<and>
    fs_key (out_path ''out'' ''white'' (PInt 0) ''speech/b.WAV'') \<notin> dirs rerun_world \<and>
    parent_exists rerun_world (out_path ''out'' ''white'' (PInt 0) ''speech/b.WAV'')"
    unfolding op by (simp add: path_defs io_defs demo_defs)
  have fok: "fst ?fg = Inr ()"
    by (rule mp[OF v4 hyp])
  have wr: "wavs (snd ?fg) ''out/white_0dB/b.WAV'' = Some ([3, 7], 8000)"
    by (simp add: path_defs io_defs gen_defs demo_defs)
  show ?thesis
    by (intro conjI c1 c2 ok j c3 c4 dj ra rb pl rr fok op wr)
qed


subsection \<open>An SNR argument that is not a list\<close>

lemma jobs_of_single: "jobs_of cn [snr] files = map (\<lambda>f. (cn, snr, f)) (files 0)"
  by (simp add: jobs_of_def)

lemma dataset_jobs_single:
  "dataset_jobs conditions [snr] files
     = concat (map (\<lambda>(c, (rv, nz)). map (\<lambda>f. (rv @ ''_'' @ nz, snr, f)) (files c))
                   (enumerate 0 conditions))"
  by (simp add: dataset_jobs_def jobs_of_def)

text \<open>
  C10. An \<^verbatim>\<open>snrs\<close> argument that is not a list is wrapped whole into a one-element list, by
  \<^verbatim>\<open>generate_condition\<close> and by \<^verbatim>\<open>generate_dataset\<close>: the call is the call on that list, and
  the one folder made is named after the textual form of the whole value. A call of
  \<^verbatim>\<open>generate_condition\<close> that returns has written one file per chosen speech file, each in
  the folder named after the whole value, and no other; a call of \<^verbatim>\<open>generate_dataset\<close> that
  returns has written one such file per condition and speech file chosen for it, and
  with a pool of one worker or more it runs \<^verbatim>\<open>generate_condition\<close> on the one-element list
  for its first condition and goes on with the rest. A tuple is not a list, so a tuple of
  several SNRs is one SNR.
\<close>

theorem snrs_not_list_wrapped:
  assumes "\<forall>xs. snrs \<noteq> PList xs"
  shows "coerce_snrs snrs = [snrs] \<and>
         generate_condition dsp self snrs noise_name output_dir reverb_name files_per_condition pool w
           = generate_condition dsp self (PList [snrs]) noise_name output_dir reverb_name
               files_per_condition pool w \<and>
         generate_dataset dsp self snrs output_dir files_per_condition n_workers w
           = generate_dataset dsp self (PList [snrs]) output_dir files_per_condition n_workers w \<and>
         mkdir_each output_dir condition_name (coerce_snrs snrs) w
           = os_mkdir (os_path_join output_dir [condition_name @ ''_'' @ py_str snrs @ ''dB'']) w \<and>
         (generate_condition dsp self snrs noise_name output_dir reverb_name files_per_condition pool w
            = (Inr (), w') \<and>
          jobs = map (\<lambda>f. (case reverb_name of Some rv \<Rightarrow> rv @ ''_'' @ noise_name | None \<Rightarrow> noise_name,
                            snrs, f))
                   (chosen_files self files_per_condition w 0) \<longrightarrow>
            written (trace w') = written (trace w) @ expected_writes output_dir (rate_map w) jobs \<and>
            map fst (expected_writes output_dir (rate_map w) jobs)
              = map (\<lambda>(cn, snr, f). out_path output_dir cn snrs f) jobs) \<and>
         (0 < n_workers \<and> dataset_conditions self = (rv, nz) # rest \<longrightarrow>
            generate_dataset dsp self snrs output_dir files_per_condition n_workers w
              = (case generate_condition dsp self (PList [snrs]) nz output_dir (Some rv)
                        files_per_condition (Some (Pool n_workers)) w of
                   (Inl e, w1) \<Rightarrow> (Inl e, w1)
                 | (Inr u, w1) \<Rightarrow>
                     condition_loop dsp self (PList [snrs]) output_dir files_per_condition
                       (Pool n_workers) rest w1)) \<and>
         (generate_dataset dsp self snrs output_dir files_per_condition n_workers w = (Inr (), w2) \<and>
          all_jobs = concat (map (\<lambda>(c, (rv, nz)).
                                    map (\<lambda>f. (rv @ ''_'' @ nz, snrs, f))
                                      (chosen_files self files_per_condition w c))
                                 (enumerate 0 (dataset_conditions self))) \<longrightarrow>
            written (trace w2) = written (trace w) @ expected_writes output_dir (rate_map w) all_jobs \<and>
            map fst (expected_writes output_dir (rate_map w) all_jobs)
              = map (\<lambda>(cn, snr, f). out_path output_dir cn snrs f) all_jobs)"
proof -
  have c: "coerce_snrs snrs = [snrs]"
    using assms by (cases snrs) (simp_all add: coerce_snrs_def)
  have l: "coerce_snrs (PList [snrs]) = [snrs]"
    by (simp add: coerce_snrs_def)
  have c2: "generate_condition dsp self snrs noise_name output_dir reverb_name files_per_condition pool w
           = generate_condition dsp self (PList [snrs]) noise_name output_dir reverb_name
               files_per_condition pool w"
    unfolding generate_condition_def c l by simp
  have c3: "generate_dataset dsp self snrs output_dir files_per_condition n_workers w
           = generate_dataset dsp self (PList [snrs]) output_dir files_per_condition n_workers w"
    unfolding generate_dataset_def c l by simp
  have c4: "mkdir_each output_dir condition_name (coerce_snrs snrs) w
           = os_mkdir (os_path_join output_dir [condition_name @ ''_'' @ py_str snrs @ ''dB'']) w"
    unfolding c mkdir_each_single subfolder_name_def by simp
  have c5: "generate_condition dsp self snrs noise_name output_dir reverb_name files_per_condition pool w
            = (Inr (), w') \<and>
          jobs = map (\<lambda>f. (case reverb_name of Some rv \<Rightarrow> rv @ ''_'' @ noise_name | None \<Rightarrow> noise_name,
                            snrs, f))
                   (chosen_files self files_per_condition w 0) \<longrightarrow>
            written (trace w') = written (trace w) @ expected_writes output_dir (rate_map w) jobs \<and>
            map fst (expected_writes output_dir (rate_map w) jobs)
              = map (\<lambda>(cn, snr, f). out_path output_dir cn snrs f) jobs"
  proof (intro impI, elim conjE)
    assume g: "generate_condition dsp self snrs noise_name output_dir reverb_name
                 files_per_condition pool w = (Inr (), w')"
      and j: "jobs = map (\<lambda>f. (case reverb_name of Some rv \<Rightarrow> rv @ ''_'' @ noise_name | None \<Rightarrow> noise_name,
                            snrs, f))
                   (chosen_files self files_per_condition w 0)"
    from generate_condition_done[OF g] have d: "jobs_done output_dir jobs w w'"
      unfolding j c jobs_of_single by simp
    have s: "map (\<lambda>(cn, snr, f). out_path output_dir cn snr f) jobs
               = map (\<lambda>(cn, snr, f). out_path output_dir cn snrs f) jobs"
      unfolding j by simp
    show "written (trace w') = written (trace w) @ expected_writes output_dir (rate_map w) jobs \<and>
            map fst (expected_writes output_dir (rate_map w) jobs)
              = map (\<lambda>(cn, snr, f). out_path output_dir cn snrs f) jobs"
      using d unfolding jobs_done_def s by simp
  qed
  have c6: "0 < n_workers \<and> dataset_conditions self = (rv, nz) # rest \<longrightarrow>
            generate_dataset dsp self snrs output_dir files_per_condition n_workers w
              = (case generate_condition dsp self (PList [snrs]) nz output_dir (Some rv)
                        files_per_condition (Some (Pool n_workers)) w of
                   (Inl e, w1) \<Rightarrow> (Inl e, w1)
                 | (Inr u, w1) \<Rightarrow>
                     condition_loop dsp self (PList [snrs]) output_dir files_per_condition
                       (Pool n_workers) rest w1)"
    by (simp add: generate_dataset_def Pool_init_def Let_def c)
  have c7: "generate_dataset dsp self snrs output_dir files_per_condition n_workers w = (Inr (), w2) \<and>
          all_jobs = concat (map (\<lambda>(c, (rv, nz)).
                                    map (\<lambda>f. (rv @ ''_'' @ nz, snrs, f))
                                      (chosen_files self files_per_condition w c))
                                 (enumerate 0 (dataset_conditions self))) \<longrightarrow>
            written (trace w2) = written (trace w) @ expected_writes output_dir (rate_map w) all_jobs \<and>
            map fst (expected_writes output_dir (rate_map w) all_jobs)
              = map (\<lambda>(cn, snr, f). out_path output_dir cn snrs f) all_jobs"
  proof (intro impI, elim conjE)
    assume g: "generate_dataset dsp self snrs output_dir files_per_condition n_workers w = (Inr (), w2)"
      and j: "all_jobs = concat (map (\<lambda>(c, (rv, nz)).
                                    map (\<lambda>f. (rv @ ''_'' @ nz, snrs, f))
                                      (chosen_files self files_per_condition w c))
                                 (enumerate 0 (dataset_conditions self)))"
    from generate_dataset_done[OF g] have d: "jobs_done output_dir all_jobs w w2"
      unfolding j c dataset_jobs_single by simp
    have "\<forall>job\<in>set all_jobs. fst (snd job) = snrs"
      unfolding j by auto
    then have s: "map (\<lambda>(cn, snr, f). out_path output_dir cn snr f) all_jobs
               = map (\<lambda>(cn, snr, f). out_path output_dir cn snrs f) all_jobs"
      by (intro map_cong refl) auto
    show "written (trace w2) = written (trace w) @ expected_writes output_dir (rate_map w) all_jobs \<and>
            map fst (expected_writes output_dir (rate_map w) all_jobs)
              = map (\<lambda>(cn, snr, f). out_path output_dir cn snrs f) all_jobs"
      using d unfolding jobs_done_def s by simp
  qed
  show ?thesis by (rule conjI[OF c conjI[OF c2 conjI[OF c3 conjI[OF c4 conjI[OF c5 conjI[OF c6 c7]]]]]])
qed

text \<open>
  The tuple \<^verbatim>\<open>(0, 10)\<close> gives the single folder \<^verbatim>\<open>out/white_(0, 10)dB\<close>, and with the reverb
  \<^verbatim>\<open>room1\<close> registered \<^verbatim>\<open>generate_dataset\<close> writes the two speech files into
  \<^verbatim>\<open>out/room1_white_(0, 10)dB\<close>.
\<close>

theorem snrs_not_list_wrapped_witness:
  "(\<forall>xs. PTuple [PInt 0, PInt 10] \<noteq> PList xs) \<and>
   coerce_snrs (PTuple [PInt 0, PInt 10]) = [PTuple [PInt 0, PInt 10]] \<and>
   py_str (PTuple [PInt 0, PInt 10]) = ''(0, 10)'' \<and>
   trace (snd (generate_condition demo_dsp demo_dataset (PTuple [PInt 0, PInt 10]) ''white'' ''out''
                 None None None demo_world))
     = [WavRead ''noises/n.wav'', MkDir ''out'', MkDir ''out/white_(0, 10)dB'',
        WavRead ''speech/a.wav'', WavWrite ''out/white_(0, 10)dB/a.wav'' 16000,
        WavRead ''speech/b.WAV'', WavWrite ''out/white_(0, 10)dB/b.WAV'' 8000] \<and>
   (0::nat) < 2 \<and>
   dataset_conditions demo_dataset = [(''room1'', ''white'')] \<and>
   fst (generate_dataset demo_dsp demo_dataset (PTuple [PInt 0, PInt 10]) ''out'' None 2 demo_world)
     = Inr () \<and>
   written (trace (snd (generate_dataset demo_dsp demo_dataset (PTuple [PInt 0, PInt 10]) ''out''
                          None 2 demo_world)))
     = [(''out/room1_white_(0, 10)dB/a.wav'', 16000), (''out/room1_white_(0, 10)dB/b.WAV'', 8000)] \<and>
   ''out/room1_white_(0, 10)dB''
     \<in> dirs (snd (generate_dataset demo_dsp demo_dataset (PTuple [PInt 0, PInt 10]) ''out'' None 2
                   demo_world))"
proof -
  let ?t = "PTuple [PInt 0, PInt 10]"
  let ?gd = "generate_dataset demo_dsp demo_dataset ?t ''out'' None 2 demo_world"
  let ?jobs = "[(''room1_white'', ?t, ''speech/a.wav''), (''room1_white'', ?t, ''speech/b.WAV'')]"
  have h: "\<forall>xs. ?t \<noteq> PList xs" by simp
  have p: "py_str ?t = ''(0, 10)''"
    by (simp add: str_int_def str_nat.simps)
  have t: "trace (snd (generate_condition demo_dsp demo_dataset (PList [?t])
                 ''white'' ''out'' None None None demo_world))
     = [WavRead ''noises/n.wav'', MkDir ''out'', MkDir ''out/white_(0, 10)dB'',
        WavRead ''speech/a.wav'', WavWrite ''out/white_(0, 10)dB/a.wav'' 16000,
        WavRead ''speech/b.WAV'', WavWrite ''out/white_(0, 10)dB/b.WAV'' 8000]"
    by (simp add: path_defs io_defs gen_defs demo_defs)
  note u = snrs_not_list_wrapped
    [OF h, where dsp = demo_dsp and self = demo_dataset and noise_name = "''white''"
       and output_dir = "''out''" and reverb_name = None and files_per_condition = None
       and pool = None and w = demo_world and n_workers = 2 and condition_name = "''white''"
       and ?w2.0 = "snd ?gd" and all_jobs = ?jobs and rv = "''room1''" and nz = "''white''"
       and rest = "[]"]
  have c1: "coerce_snrs ?t = [?t]" by (rule u[THEN conjunct1])
  have c2: "trace (snd (generate_condition demo_dsp demo_dataset ?t ''white'' ''out''
                 None None None demo_world))
     = [WavRead ''noises/n.wav'', MkDir ''out'', MkDir ''out/white_(0, 10)dB'',
        WavRead ''speech/a.wav'', WavWrite ''out/white_(0, 10)dB/a.wav'' 16000,
        WavRead ''speech/b.WAV'', WavWrite ''out/white_(0, 10)dB/b.WAV'' 8000]"
    unfolding u[THEN conjunct2, THEN conjunct1] by (rule t)
  have n: "(0::nat) < 2" by simp
  have dc: "dataset_conditions demo_dataset = [(''room1'', ''white'')]"
    by (simp add: dataset_conditions_def dict_keys_def demo_dataset_def)
  have ok: "fst ?gd = Inr ()"
    by (simp add: path_defs io_defs gen_defs demo_defs)
  have e: "?gd = (Inr (), snd ?gd)"
    using ok by (metis prod.collapse)
  have j: "?jobs = concat (map (\<lambda>(c, (rv, nz)).
                                    map (\<lambda>f. (rv @ ''_'' @ nz, ?t, f))
                                      (chosen_files demo_dataset None demo_world c))
                                 (enumerate 0 (dataset_conditions demo_dataset)))"
    unfolding dc by (simp add: chosen_files_def demo_dataset_def)
  note u7 = u[THEN conjunct2, THEN conjunct2, THEN conjunct2, THEN conjunct2, THEN conjunct2,
              THEN conjunct2]
  note r = mp[OF u7 conjI[OF e j]]
  have ew: "written (trace demo_world) @ expected_writes ''out'' (rate_map demo_world) ?jobs
      = [(''out/room1_white_(0, 10)dB/a.wav'', 16000), (''out/room1_white_(0, 10)dB/b.WAV'', 8000)]"
    by (simp add: out_path_def rate_map_def path_defs demo_defs str_int_def str_nat.simps)
  have c3: "written (trace (snd ?gd))
     = [(''out/room1_white_(0, 10)dB/a.wav'', 16000), (''out/room1_white_(0, 10)dB/b.WAV'', 8000)]"
    by (rule trans[OF r[THEN conjunct1] ew])
  have c4: "''out/room1_white_(0, 10)dB'' \<in> dirs (snd ?gd)"
    by (simp add: path_defs io_defs gen_defs demo_defs)
  show ?thesis
    by (intro conjI h c1 p c2 n dc ok c3 c4)
qed


subsection \<open>The files of one SNR\<close>

lemma files_read_append: "files_read (a @ b) = files_read a @ files_read b"
  by (induction a rule: files_read.induct) simp_all

lemma then_do_failed: "(\<And>a w'. failed (f a w')) \<Longrightarrow> failed (then_do m f)"
  by (auto simp: then_do_def failed_def split: prod.splits sum.splits)

lemma FileGenerator_call_reads:
  "FileGenerator_call dsp g f w = (res, w') \<Longrightarrow>
     files_read (trace w') = files_read (trace w) @ [f]"
  by (auto simp: FileGenerator_call_def then_do_def wavread_def wavwrite_def log_event_def
      files_read_append Let_def split: option.splits sum.splits prod.splits if_splits)

lemma run_files_reads:
  "run_files dsp g fs w = (Inr (), w') \<Longrightarrow> files_read (trace w') = files_read (trace w) @ fs"
proof (induction fs arbitrary: w)
  case Nil
  then show ?case by simp
next
  case (Cons f fs)
  obtain res w1 where c: "FileGenerator_call dsp g f w = (res, w1)"
    by (cases "FileGenerator_call dsp g f w")
  from Cons.prems c obtain u where r: "res = Inr u" and rest: "run_files dsp g fs w1 = (Inr (), w')"
    by (cases res) auto
  from FileGenerator_call_reads[OF c] Cons.IH[OF rest] show ?case by simp
qed

lemma choose_keeps_trace:
  "choose_speech_files self fpc w = (res, w1) \<Longrightarrow> trace w1 = trace w"
  by (auto simp: choose_speech_files_def np_random_choice_def split: option.splits if_splits)

lemma snr_step_reads:
  assumes "snr_step dsp self n r output_dir cn fpc pool snr w = (Inr (), w')"
  shows "\<exists>chosen w1. choose_speech_files self fpc w = (Inr chosen, w1) \<and>
           files_read (trace w') = files_read (trace w) @ chosen"
proof -
  obtain res w1 where c: "choose_speech_files self fpc w = (res, w1)"
    by (cases "choose_speech_files self fpc w")
  from assms c obtain chosen where r: "res = Inr chosen"
    by (cases res) (auto simp: snr_step_def then_do_def)
  from assms c r have
    "run_files dsp (FileGenerator_init n r snr output_dir cn (speech_energy self)) chosen w1
       = (Inr (), w')"
    by (auto simp: snr_step_def then_do_def Let_def split: option.splits dest: pool_map_ok)
  from run_files_reads[OF this] choose_keeps_trace[OF c] c r show ?thesis by simp
qed

lemma sample_too_large:
  "length (speech self) < M \<Longrightarrow>
     choose_speech_files self (Some M) w
       = (Inl (ValueError (if speech self = []
                           then ''a cannot be empty unless no samples are taken''
                           else ''Cannot take a larger sample than population when replace=False'')), w)"
  by (auto simp: choose_speech_files_def np_random_choice_def)

lemma snr_step_too_large:
  "length (speech self) < M \<Longrightarrow> failed (snr_step dsp self n r output_dir cn (Some M) pool snr w)"
  by (simp add: snr_step_def sample_too_large then_do_def failed_def)

lemma snr_loop_too_large:
  "length (speech self) < M \<Longrightarrow> snrs \<noteq> [] \<Longrightarrow>
     failed (snr_loop dsp self n r output_dir cn (Some M) pool snrs w)"
proof (cases snrs)
  case Nil
  then show "snrs \<noteq> [] \<Longrightarrow> ?thesis" by simp
next
  case (Cons snr rest)
  assume "length (speech self) < M"
  from snr_step_too_large[OF this, of dsp n r output_dir cn pool snr w]
  show ?thesis unfolding Cons
    by (auto simp: failed_def split: prod.splits sum.splits)
qed

lemma generate_condition_too_large:
  assumes "length (speech self) < M" and "coerce_snrs snrs \<noteq> []"
  shows "failed (generate_condition dsp self snrs noise_name output_dir reverb_name (Some M) pool w)"
proof (cases "noise_name \<notin> set (dict_keys (noise self))")
  case True
  then show ?thesis by (simp add: generate_condition_def failed_def)
next
  case False
  then show ?thesis
    unfolding generate_condition_def Let_def
    by (auto intro!: then_do_failed snr_loop_too_large[OF assms])
qed

lemma sample_positions:
  assumes "M \<le> length xs" and "distinct p" and "set p = {..<length xs}"
  shows "length (take M p) = M \<and> distinct (take M p) \<and> set (take M p) \<subseteq> {..<length xs} \<and>
         (distinct xs \<longrightarrow> distinct (map (\<lambda>i. xs ! i) (take M p)))"
proof -
  have l: "length p = length xs"
    using assms(2,3) by (metis card_lessThan distinct_card)
  have s: "set (take M p) \<subseteq> {..<length xs}"
    using assms(3) set_take_subset by fastforce
  have d: "distinct (take M p)" using assms(2) by simp
  have "distinct xs \<longrightarrow> distinct (map (\<lambda>i. xs ! i) (take M p))"
  proof
    assume dx: "distinct xs"
    have "inj_on (\<lambda>i. xs ! i) (set (take M p))"
    proof (rule inj_onI)
      fix x y
      assume "x \<in> set (take M p)" and "y \<in> set (take M p)" and e: "xs ! x = xs ! y"
      then have "x < length xs" and "y < length xs" using s by auto
      then show "x = y" using dx e by (simp add: nth_eq_iff_index_eq)
    qed
    then show "distinct (map (\<lambda>i. xs ! i) (take M p))"
      using d by (simp add: distinct_map)
  qed
  then show ?thesis using l s d assms(1) by simp
qed


text \<open>
  The claim C5 as the spec states it fails twice. The sample is drawn once per SNR, inside
  the loop, so with an empty SNR list no sample is drawn and a call with
  \<^verbatim>\<open>files_per_condition\<close> above the number of speech files returns normally. And the sample
  is one of positions of the speech list, which is never deduplicated: a path registered
  twice can be drawn twice.
\<close>

theorem files_per_condition_counterexample:
  "length (speech demo_dataset) < 3 \<and>
   fst (generate_condition demo_dsp demo_dataset (PList []) ''white'' ''out'' None (Some 3) None
          demo_world) = Inr () \<and>
   2 \<le> length (speech repeated_dataset) \<and>
   fst (choose_speech_files repeated_dataset (Some 2) demo_world)
     = Inr [''speech/a.wav'', ''speech/a.wav'']"
  by (simp add: path_defs io_defs gen_defs demo_defs)

text \<open>
  C5, amended. With \<open>M\<close> at most the length \<open>S\<close> of the speech list (and the generator
  drawing a permutation of the positions), the files chosen for an SNR are the entries
  at \<open>M\<close> pairwise distinct positions of the speech list, so \<open>M\<close> distinct files when the
  list repeats no path. With \<open>M\<close> above \<open>S\<close> the choice fails, so the SNR step fails, so
  the call fails whenever it has an SNR to process. With \<^verbatim>\<open>files_per_condition\<close> omitted the
  whole speech list is chosen. An SNR step that succeeds has read exactly the chosen files,
  in order.
\<close>

theorem files_per_condition_sample:
  "(M \<le> length (speech self) \<and> distinct (perms w (draws w)) \<and>
    set (perms w (draws w)) = {..<length (speech self)} \<longrightarrow>
      choose_speech_files self (Some M) w
        = (Inr (map (\<lambda>i. speech self ! i) (take M (perms w (draws w)))),
           w\<lparr>draws := draws w + 1\<rparr>) \<and>
      length (take M (perms w (draws w))) = M \<and>
      distinct (take M (perms w (draws w))) \<and>
      set (take M (perms w (draws w))) \<subseteq> {..<length (speech self)} \<and>
      (distinct (speech self) \<longrightarrow>
         distinct (map (\<lambda>i. speech self ! i) (take M (perms w (draws w)))))) \<and>
   (length (speech self) < M \<longrightarrow>
      failed (choose_speech_files self (Some M) w) \<and>
      failed (snr_step dsp self n r output_dir cn (Some M) pool snr w) \<and>
      (coerce_snrs snrs \<noteq> [] \<longrightarrow>
         failed (generate_condition dsp self snrs noise_name output_dir reverb_name (Some M)
                   pool w))) \<and>
   choose_speech_files self None w = (Inr (speech self), w) \<and>
   (snr_step dsp self n r output_dir cn files_per_condition pool snr w = (Inr (), w') \<longrightarrow>
      (\<exists>chosen w1. choose_speech_files self files_per_condition w = (Inr chosen, w1) \<and>
         files_read (trace w') = files_read (trace w) @ chosen))"
proof -
  have a: "M \<le> length (speech self) \<and> distinct (perms w (draws w)) \<and>
    set (perms w (draws w)) = {..<length (speech self)} \<longrightarrow>
      choose_speech_files self (Some M) w
        = (Inr (map (\<lambda>i. speech self ! i) (take M (perms w (draws w)))),
           w\<lparr>draws := draws w + 1\<rparr>) \<and>
      length (take M (perms w (draws w))) = M \<and>
      distinct (take M (perms w (draws w))) \<and>
      set (take M (perms w (draws w))) \<subseteq> {..<length (speech self)} \<and>
      (distinct (speech self) \<longrightarrow>
         distinct (map (\<lambda>i. speech self ! i) (take M (perms w (draws w)))))"
  proof (intro impI, elim conjE)
    assume m: "M \<le> length (speech self)" and d: "distinct (perms w (draws w))"
      and p: "set (perms w (draws w)) = {..<length (speech self)}"
    have c: "choose_speech_files self (Some M) w
        = (Inr (map (\<lambda>i. speech self ! i) (take M (perms w (draws w)))),
           w\<lparr>draws := draws w + 1\<rparr>)"
      using m by (auto simp: choose_speech_files_def np_random_choice_def)
    show "choose_speech_files self (Some M) w
        = (Inr (map (\<lambda>i. speech self ! i) (take M (perms w (draws w)))),
           w\<lparr>draws := draws w + 1\<rparr>) \<and>
      length (take M (perms w (draws w))) = M \<and>
      distinct (take M (perms w (draws w))) \<and>
      set (take M (perms w (draws w))) \<subseteq> {..<length (speech self)} \<and>
      (distinct (speech self) \<longrightarrow>
         distinct (map (\<lambda>i. speech self ! i) (take M (perms w (draws w)))))"
      by (rule conjI[OF c sample_positions[OF m d p]])
  qed
  have b: "length (speech self) < M \<longrightarrow>
      failed (choose_speech_files self (Some M) w) \<and>
      failed (snr_step dsp self n r output_dir cn (Some M) pool snr w) \<and>
      (coerce_snrs snrs \<noteq> [] \<longrightarrow>
         failed (generate_condition dsp self snrs noise_name output_dir reverb_name (Some M)
                   pool w))"
  proof
    assume l: "length (speech self) < M"
    have b1: "failed (choose_speech_files self (Some M) w)"
      unfolding sample_too_large[OF l] by (simp add: failed_def)
    have b2: "failed (snr_step dsp self n r output_dir cn (Some M) pool snr w)"
      using l by (rule snr_step_too_large)
    have b3: "coerce_snrs snrs \<noteq> [] \<longrightarrow>
         failed (generate_condition dsp self snrs noise_name output_dir reverb_name (Some M)
                   pool w)"
      using generate_condition_too_large[OF l] by (rule impI)
    show "failed (choose_speech_files self (Some M) w) \<and>
      failed (snr_step dsp self n r output_dir cn (Some M) pool snr w) \<and>
      (coerce_snrs snrs \<noteq> [] \<longrightarrow>
         failed (generate_condition dsp self snrs noise_name output_dir reverb_name (Some M)
                   pool w))"
      by (rule conjI[OF b1 conjI[OF b2 b3]])
  qed
  have c: "choose_speech_files self None w = (Inr (speech self), w)"
    by (simp add: choose_speech_files_def)
  have d: "snr_step dsp self n r output_dir cn files_per_condition pool snr w = (Inr (), w') \<longrightarrow>
      (\<exists>chosen w1. choose_speech_files self files_per_condition w = (Inr chosen, w1) \<and>
         files_read (trace w') = files_read (trace w) @ chosen)"
    using snr_step_reads by (rule impI)
  show ?thesis by (rule conjI[OF a conjI[OF b conjI[OF c d]]])
qed


text \<open>
  Two speech files and the draw \<^verbatim>\<open>[1, 0]\<close>: one file per condition is \<^verbatim>\<open>speech/b.WAV\<close>; three
  files per condition fail.
\<close>

theorem files_per_condition_sample_witness:
  "1 \<le> length (speech demo_dataset) \<and>
   distinct (perms rerun_world (draws rerun_world)) \<and>
   set (perms rerun_world (draws rerun_world)) = {..<length (speech demo_dataset)} \<and>
   choose_speech_files demo_dataset (Some 1) rerun_world
     = (Inr [''speech/b.WAV''], rerun_world\<lparr>draws := draws rerun_world + 1\<rparr>) \<and>
   fst (snr_step demo_dsp demo_dataset [7] None ''out'' ''white'' (Some 1) None (PInt 0)
          rerun_world) = Inr () \<and>
   files_read (trace (snd (snr_step demo_dsp demo_dataset [7] None ''out'' ''white'' (Some 1) None
                             (PInt 0) rerun_world)))
     = [''speech/b.WAV''] \<and>
   length (speech demo_dataset) < 3 \<and>
   coerce_snrs (PList [PInt 0, PInt 10]) \<noteq> [] \<and>
   failed (generate_condition demo_dsp demo_dataset (PList [PInt 0, PInt 10]) ''white'' ''out'' None
             (Some 3) None demo_world) \<and>
   choose_speech_files demo_dataset None demo_world
     = (Inr [''speech/a.wav'', ''speech/b.WAV''], demo_world)"
proof -
  have s: "speech demo_dataset = [''speech/a.wav'', ''speech/b.WAV'']"
    by (simp add: demo_dataset_def)
  have p: "perms rerun_world (draws rerun_world) = [1, 0]"
    by (simp add: rerun_world_def demo_world_def)
  have h1: "1 \<le> length (speech demo_dataset)" by (simp add: s)
  have h2: "distinct (perms rerun_world (draws rerun_world))" by (simp add: p)
  have h3: "set (perms rerun_world (draws rerun_world)) = {..<length (speech demo_dataset)}"
    unfolding p s by auto
  have h4: "length (speech demo_dataset) < 3" by (simp add: s)
  have h5: "coerce_snrs (PList [PInt 0, PInt 10]) \<noteq> []" by (simp add: coerce_snrs_def)
  have ok: "fst (snr_step demo_dsp demo_dataset [7] None ''out'' ''white'' (Some 1) None (PInt 0)
                   rerun_world) = Inr ()"
    by (simp add: path_defs io_defs gen_defs demo_defs)
  have e: "snr_step demo_dsp demo_dataset [7] None ''out'' ''white'' (Some 1) None (PInt 0) rerun_world
             = (Inr (), snd (snr_step demo_dsp demo_dataset [7] None ''out'' ''white'' (Some 1) None
                               (PInt 0) rerun_world))"
    using ok by (metis prod.collapse)
  have t0: "files_read (trace rerun_world) = []"
    by (simp add: rerun_world_def demo_world_def)
  note t1 = files_per_condition_sample
    [of 1 demo_dataset rerun_world demo_dsp "[7]" None "''out''" "''white''" None "PInt 0"
        "PList [PInt 0, PInt 10]" "''white''" None "Some 1"
        "snd (snr_step demo_dsp demo_dataset [7] None ''out'' ''white'' (Some 1) None (PInt 0)
                rerun_world)"]
  note t2 = files_per_condition_sample
    [of 3 demo_dataset demo_world demo_dsp "[7]" None "''out''" "''white''" None "PInt 0"
        "PList [PInt 0, PInt 10]" "''white''" None None demo_world]
  have c1: "choose_speech_files demo_dataset (Some 1) rerun_world
     = (Inr [''speech/b.WAV''], rerun_world\<lparr>draws := draws rerun_world + 1\<rparr>)"
    using t1 h1 h2 h3 by (simp add: p s)
  have c2: "files_read (trace (snd (snr_step demo_dsp demo_dataset [7] None ''out'' ''white'' (Some 1)
                                      None (PInt 0) rerun_world)))
     = [''speech/b.WAV'']"
    using t1 e c1 t0 by auto
  have c3: "failed (generate_condition demo_dsp demo_dataset (PList [PInt 0, PInt 10]) ''white''
                      ''out'' None (Some 3) None demo_world)"
    using t2 h4 h5 by blast
  have c4: "choose_speech_files demo_dataset None demo_world
     = (Inr [''speech/a.wav'', ''speech/b.WAV''], demo_world)"
    using t2 by (simp add: s)
  show ?thesis
    by (intro conjI h1 h2 h3 c1 ok c2 h4 h5 c3 c4)
qed


section \<open>Generating the dataset\<close>

text \<open>
  The claim C2 as the spec states it, that a dataset with noises and no reverb still gets
  one condition per noise, fails: with \<^verbatim>\<open>white\<close> registered and no impulse response,
  \<^verbatim>\<open>generate_dataset\<close> has no condition to run and returns with the world untouched (a
  call of \<^verbatim>\<open>generate_condition\<close> on a registered noise would have read the noise file).
\<close>

theorem generate_dataset_no_reverb_counterexample:
  "noise noise_only_dataset = [(''white'', ''noises/n.wav'')] \<and>
   reverb noise_only_dataset = [] \<and>
   dataset_conditions noise_only_dataset = [] \<and>
   generate_dataset demo_dsp noise_only_dataset (PList [PInt 0, PInt 10]) ''out'' None 4 demo_world
     = (Inr (), demo_world)"
  by (simp add: noise_only_dataset_def demo_dataset_def dataset_conditions_def dict_keys_def
      generate_dataset_def Pool_init_def)

lemma product_Nil_right: "List.product xs [] = []"
  by (induction xs) simp_all

text \<open>
  C2, amended. \<^verbatim>\<open>generate_dataset\<close> runs one condition per pair of the product of the
  reverb names and the noise names, each with its reverb name; there are as many as the
  product of the two registry sizes, so an empty reverb registry, like an empty noise
  registry, yields no condition at all and the call (with a pool of one worker or more)
  returns without any effect.
\<close>

theorem generate_dataset_cross_product:
  "length (dataset_conditions self) = length (reverb self) * length (noise self) \<and>
   set (dataset_conditions self) = set (dict_keys (reverb self)) \<times> set (dict_keys (noise self)) \<and>
   ((reverb self = [] \<or> noise self = []) \<and> 0 < n_workers \<longrightarrow>
      generate_dataset dsp self snrs output_dir files_per_condition n_workers w = (Inr (), w)) \<and>
   (dataset_conditions self = (rv, nz) # rest \<and> 0 < n_workers \<longrightarrow>
      generate_dataset dsp self snrs output_dir files_per_condition n_workers w
        = (case generate_condition dsp self (PList (coerce_snrs snrs)) nz output_dir (Some rv)
                  files_per_condition (Some (Pool n_workers)) w of
             (Inl e, w') \<Rightarrow> (Inl e, w')
           | (Inr u, w') \<Rightarrow>
               condition_loop dsp self (PList (coerce_snrs snrs)) output_dir files_per_condition
                 (Pool n_workers) rest w'))"
proof -
  have a: "length (dataset_conditions self) = length (reverb self) * length (noise self)"
    by (simp add: dataset_conditions_def dict_keys_def)
  have b: "set (dataset_conditions self)
             = set (dict_keys (reverb self)) \<times> set (dict_keys (noise self))"
    by (simp add: dataset_conditions_def)
  have c: "(reverb self = [] \<or> noise self = []) \<and> 0 < n_workers \<longrightarrow>
             generate_dataset dsp self snrs output_dir files_per_condition n_workers w = (Inr (), w)"
    by (auto simp: dataset_conditions_def dict_keys_def generate_dataset_def Pool_init_def
        product_Nil_right)
  have d: "dataset_conditions self = (rv, nz) # rest \<and> 0 < n_workers \<longrightarrow>
      generate_dataset dsp self snrs output_dir files_per_condition n_workers w
        = (case generate_condition dsp self (PList (coerce_snrs snrs)) nz output_dir (Some rv)
                  files_per_condition (Some (Pool n_workers)) w of
             (Inl e, w') \<Rightarrow> (Inl e, w')
           | (Inr u, w') \<Rightarrow>
               condition_loop dsp self (PList (coerce_snrs snrs)) output_dir files_per_condition
                 (Pool n_workers) rest w')"
    by (simp add: generate_dataset_def Pool_init_def Let_def)
  show ?thesis by (rule conjI[OF a conjI[OF b conjI[OF c d]]])
qed

text \<open>
  Without an impulse response nothing is generated; with \<^verbatim>\<open>room1\<close> and \<^verbatim>\<open>white\<close> the one
  condition is the pair of them, and its files go to \<^verbatim>\<open>out/room1_white_5dB\<close>.
\<close>

theorem generate_dataset_cross_product_witness:
  "(reverb noise_only_dataset = [] \<or> noise noise_only_dataset = []) \<and> (0::nat) < 4 \<and>
   generate_dataset demo_dsp noise_only_dataset (PInt 5) ''out'' None 4 demo_world
     = (Inr (), demo_world) \<and>
   length (dataset_conditions demo_dataset) = 1 \<and>
   set (dataset_conditions demo_dataset) = {(''room1'', ''white'')} \<and>
   trace (snd (generate_dataset demo_dsp demo_dataset (PInt 5) ''out'' None 4 demo_world))
     = [WavRead ''noises/n.wav'', WavRead ''rirs/r.wav'', MkDir ''out'',
        MkDir ''out/room1_white_5dB'', WavRead ''speech/a.wav'',
        WavWrite ''out/room1_white_5dB/a.wav'' 16000, WavRead ''speech/b.WAV'',
        WavWrite ''out/room1_white_5dB/b.WAV'' 8000]"
proof -
  have e: "(reverb noise_only_dataset = [] \<or> noise noise_only_dataset = []) \<and> (0::nat) < 4"
    by (simp add: noise_only_dataset_def)
  have l: "length (reverb demo_dataset) * length (noise demo_dataset) = 1"
    by (simp add: demo_dataset_def)
  have s: "set (dict_keys (reverb demo_dataset)) \<times> set (dict_keys (noise demo_dataset))
             = {(''room1'', ''white'')}"
    by (simp add: demo_dataset_def dict_keys_def)
  note t = generate_dataset_cross_product
    [where self = noise_only_dataset and dsp = demo_dsp and snrs = "PInt 5"
       and output_dir = "''out''" and files_per_condition = None and n_workers = 4
       and w = demo_world]
  note u = generate_dataset_cross_product
    [where self = demo_dataset and dsp = demo_dsp and snrs = "PInt 5"
       and output_dir = "''out''" and files_per_condition = None and n_workers = 4
       and w = demo_world]
  have c1: "generate_dataset demo_dsp noise_only_dataset (PInt 5) ''out'' None 4 demo_world
     = (Inr (), demo_world)"
    by (rule mp[OF t[THEN conjunct2, THEN conjunct2, THEN conjunct1] e])
  have c2: "length (dataset_conditions demo_dataset) = 1"
    using u[THEN conjunct1] l by simp
  have c3: "set (dataset_conditions demo_dataset) = {(''room1'', ''white'')}"
    using u[THEN conjunct2, THEN conjunct1] s by simp
  have c4: "trace (snd (generate_dataset demo_dsp demo_dataset (PInt 5) ''out'' None 4 demo_world))
     = [WavRead ''noises/n.wav'', WavRead ''rirs/r.wav'', MkDir ''out'',
        MkDir ''out/room1_white_5dB'', WavRead ''speech/a.wav'',
        WavWrite ''out/room1_white_5dB/a.wav'' 16000, WavRead ''speech/b.WAV'',
        WavWrite ''out/room1_white_5dB/b.WAV'' 8000]"
    by (simp add: path_defs io_defs gen_defs demo_defs)
  show ?thesis
    by (intro conjI e[THEN conjunct1] e[THEN conjunct2] c1 c2 c3 c4)
qed

end
